theory Spec2Isabelle
  imports Complex_Main
begin

section \<open>The page as autoUpdate sees it\<close>

text \<open>
  \<^verbatim>\<open>autoUpdate\<close> (packages/dom/src/autoUpdate.ts) wires one \<^verbatim>\<open>update\<close> callback to
  scroll and resize listeners, a ResizeObserver and an animation-frame loop, and
  returns a function that undoes the wiring. The browser is not part of the
  source, so the embedding carries the part of it the function talks to:
  the listeners registered with \<^verbatim>\<open>update\<close>, the nodes the ResizeObserver
  observes, the IntersectionObservers that are connected, the animation-frame
  callbacks that are pending and the current rectangle of the reference. Every
  call the code makes into the browser, and every call of \<^verbatim>\<open>update\<close>, is
  appended to a trace.

  \<^verbatim>\<open>update\<close> is the caller's code. What it can do to the instance is call the
  function \<^verbatim>\<open>autoUpdate\<close> returned, once \<^verbatim>\<open>autoUpdate\<close> has returned it; a
  callback is therefore a predicate on the state that says whether this call of
  \<^verbatim>\<open>update\<close> calls the returned function. The callback returns normally: the
  code has no handler for one that throws.

  Coordinates are JavaScript numbers: \<^verbatim>\<open>NaN\<close> is among them, and \<^verbatim>\<open>!==\<close> holds
  between \<^verbatim>\<open>NaN\<close> and every number, \<^verbatim>\<open>NaN\<close> included.
\<close>

type_synonym node = nat
type_synonym target = nat

datatype number = Number real | PosInfinity | NegInfinity | NaN

text \<open>\<^verbatim>\<open>a !== b\<close> on numbers.\<close>

definition strict_neq :: "number \<Rightarrow> number \<Rightarrow> bool" where
  "strict_neq a b \<longleftrightarrow> a = NaN \<or> b = NaN \<or> a \<noteq> b"

record DOMRect =
  rect_x :: number
  rect_y :: number
  rect_width :: number
  rect_height :: number

record IntersectionObserverEntry =
  boundingClientRect :: DOMRect

text \<open>A reference is an element, or a virtual element with an optional \<^verbatim>\<open>contextElement\<close>.\<close>

datatype ReferenceElement = Element node | VirtualElement "node option"

fun isElement :: "ReferenceElement \<Rightarrow> bool" where
  "isElement (Element n) = True"
| "isElement (VirtualElement c) = False"

text \<open>\<^verbatim>\<open>Partial<Options>\<close>: a field that is absent is \<open>None\<close>.\<close>

record Options =
  o_ancestorScroll :: "bool option"
  o_ancestorResize :: "bool option"
  o_elementResize :: "bool option"
  o_animationFrame :: "bool option"

fun or_default :: "bool option \<Rightarrow> bool \<Rightarrow> bool" where
  "or_default None d = d"
| "or_default (Some b) d = b"

datatype evtype = Scroll | Resize

datatype effect =
    GetOverflowAncestors node
  | AddEventListener target evtype
  | RemoveEventListener target evtype
  | NewResizeObserver
  | ROObserve node
  | RODisconnect
  | NewIntersectionObserver nat
  | IOObserve nat node
  | IODisconnect nat
  | GetBoundingClientRect
  | RequestAnimationFrame nat
  | CancelAnimationFrame nat
  | Update

datatype error = TypeError

text \<open>
  The first ten fields are the variables of the closure that \<^verbatim>\<open>autoUpdate\<close> creates
  (lines 40-91); the next eight are the browser's side; \<open>returned\<close> says that
  \<^verbatim>\<open>autoUpdate\<close> has returned, so that the caller holds the returned function.
\<close>

record state =
  reference :: ReferenceElement
  floating :: node
  ancestorScroll :: bool
  ancestorResize :: bool
  ancestors :: "target list"
  resizeObserver :: "unit option"
  initialUpdate :: bool
  frameId :: "nat option"
  intersectionObserver :: "nat option"
  prevRefRect :: "DOMRect option"
  listeners :: "(target \<times> evtype) list"
  ro_targets :: "node list"
  io_targets :: "(nat \<times> node) list"
  io_count :: nat
  raf_pending :: "nat list"
  raf_count :: nat
  ref_rect :: DOMRect
  trace :: "effect list"
  returned :: bool

type_synonym callback = "state \<Rightarrow> bool"

text \<open>What \<^verbatim>\<open>autoUpdate\<close> finds when it is called.\<close>

record environment =
  env_overflowAncestors :: "node \<Rightarrow> target list"
  env_rect :: DOMRect
  env_raf_count :: nat
  env_io_count :: nat

subsection \<open>Browser operations\<close>

definition emit :: "effect \<Rightarrow> state \<Rightarrow> state" where
  "emit e s = s\<lparr>trace := trace s @ [e]\<rparr>"

definition updates :: "state \<Rightarrow> nat" where
  "updates s = count_list (trace s) Update"

definition getOverflowAncestors ::
  "(node \<Rightarrow> target list) \<Rightarrow> node \<Rightarrow> state \<Rightarrow> target list \<times> state" where
  "getOverflowAncestors overflow n s = (overflow n, emit (GetOverflowAncestors n) s)"

text \<open>A listener that is already registered for the same type is not added again.\<close>

definition addEventListener :: "target \<Rightarrow> evtype \<Rightarrow> state \<Rightarrow> state" where
  "addEventListener t k s =
     emit (AddEventListener t k)
       (s\<lparr>listeners :=
            (if (t, k) \<in> set (listeners s) then listeners s else listeners s @ [(t, k)])\<rparr>)"

definition removeEventListener :: "target \<Rightarrow> evtype \<Rightarrow> state \<Rightarrow> state" where
  "removeEventListener t k s =
     emit (RemoveEventListener t k) (s\<lparr>listeners := removeAll (t, k) (listeners s)\<rparr>)"

definition ro_observe :: "node \<Rightarrow> state \<Rightarrow> state" where
  "ro_observe n s =
     emit (ROObserve n)
       (s\<lparr>ro_targets := (if n \<in> set (ro_targets s) then ro_targets s else ro_targets s @ [n])\<rparr>)"

definition ro_disconnect :: "unit \<Rightarrow> state \<Rightarrow> state" where
  "ro_disconnect h s = emit RODisconnect (s\<lparr>ro_targets := []\<rparr>)"

definition io_observe :: "nat \<Rightarrow> node \<Rightarrow> state \<Rightarrow> state" where
  "io_observe k n s = emit (IOObserve k n) (s\<lparr>io_targets := io_targets s @ [(k, n)]\<rparr>)"

definition io_disconnect :: "nat \<Rightarrow> state \<Rightarrow> state" where
  "io_disconnect k s =
     emit (IODisconnect k) (s\<lparr>io_targets := filter (\<lambda>p. fst p \<noteq> k) (io_targets s)\<rparr>)"

definition getBoundingClientRect :: "state \<Rightarrow> DOMRect \<times> state" where
  "getBoundingClientRect s = (ref_rect s, emit GetBoundingClientRect s)"

text \<open>The handle is the page's callback identifier after it was incremented: never 0.\<close>

definition requestAnimationFrame :: "state \<Rightarrow> nat \<times> state" where
  "requestAnimationFrame s =
     (let handle = Suc (raf_count s)
      in (handle,
          emit (RequestAnimationFrame handle)
            (s\<lparr>raf_count := handle, raf_pending := raf_pending s @ [handle]\<rparr>)))"

definition cancelAnimationFrame :: "nat \<Rightarrow> state \<Rightarrow> state" where
  "cancelAnimationFrame i s =
     emit (CancelAnimationFrame i) (s\<lparr>raf_pending := removeAll i (raf_pending s)\<rparr>)"

text \<open>\<^verbatim>\<open>h.m()\<close> throws when \<^verbatim>\<open>h\<close> is null; \<^verbatim>\<open>h?.m()\<close> skips the call then.\<close>

definition call_method :: "'h option \<Rightarrow> ('h \<Rightarrow> state \<Rightarrow> state) \<Rightarrow> state \<Rightarrow> error + state" where
  "call_method h m s = (case h of None \<Rightarrow> Inl TypeError | Some x \<Rightarrow> Inr (m x s))"

definition call_optional :: "'h option \<Rightarrow> ('h \<Rightarrow> state \<Rightarrow> state) \<Rightarrow> state \<Rightarrow> error + state" where
  "call_optional h m s = (case h of None \<Rightarrow> Inr s | Some x \<Rightarrow> call_method h m s)"

definition and_then :: "error + state \<Rightarrow> (state \<Rightarrow> error + state) \<Rightarrow> error + state" where
  "and_then r k = (case r of Inl e \<Rightarrow> Inl e | Inr s \<Rightarrow> k s)"

section \<open>autoUpdate\<close>

subsection \<open>The returned function (lines 144-159)\<close>

text \<open>It comes first here because the caller's callback may call it.\<close>

fun detach_listeners :: "target list \<Rightarrow> state \<Rightarrow> state" where
  "detach_listeners [] s = s"
| "detach_listeners (a # rest) s =
     (let s1 = (if ancestorScroll s then removeEventListener a Scroll s else s);
          s2 = (if ancestorResize s1 then removeEventListener a Resize s1 else s1)
      in detach_listeners rest s2)"

definition dispose :: "state \<Rightarrow> error + state" where
  "dispose s =
     (let s1 = detach_listeners (ancestors s) s
      in and_then (call_optional (resizeObserver s1) ro_disconnect s1)
           (\<lambda>s2. let s3 = s2\<lparr>resizeObserver := None\<rparr>
                 in and_then (call_optional (intersectionObserver s3) io_disconnect s3)
                      (\<lambda>s4. let s5 = s4\<lparr>intersectionObserver := None\<rparr>
                            in Inr (case frameId s5 of
                                      None \<Rightarrow> s5
                                    | Some i \<Rightarrow> if i \<noteq> 0 then cancelAnimationFrame i s5 else s5))))"

subsection \<open>The caller's callback\<close>

text \<open>
  A call of \<^verbatim>\<open>update\<close> is recorded; when the caller holds the returned function
  and the callback decides so, the returned function runs inside the call. The
  returned function returns normally in every state (lemma \<open>dispose_total\<close>
  below), so the call inside \<^verbatim>\<open>update\<close> is its result.
\<close>

definition call_disposer :: "state \<Rightarrow> state" where
  "call_disposer s = (case dispose s of Inr d \<Rightarrow> d | Inl e \<Rightarrow> s)"

definition update :: "callback \<Rightarrow> state \<Rightarrow> state" where
  "update cb s =
     (let s1 = emit Update s
      in if returned s1 \<and> cb s1 then call_disposer s1 else s1)"

subsection \<open>Setup (lines 45-95 and 142)\<close>

definition closure :: "environment \<Rightarrow> ReferenceElement \<Rightarrow> node \<Rightarrow> bool \<Rightarrow> bool \<Rightarrow> state" where
  "closure env refEl floatEl scroll resize =
     \<lparr>reference = refEl, floating = floatEl,
      ancestorScroll = scroll, ancestorResize = resize,
      ancestors = [], resizeObserver = None, initialUpdate = True,
      frameId = None, intersectionObserver = None, prevRefRect = None,
      listeners = [], ro_targets = [], io_targets = [], io_count = env_io_count env,
      raf_pending = [], raf_count = env_raf_count env, ref_rect = env_rect env,
      trace = [], returned = False\<rparr>"

text \<open>Lines 54-64.\<close>

definition discover_ancestors :: "(node \<Rightarrow> target list) \<Rightarrow> state \<Rightarrow> state" where
  "discover_ancestors overflow s =
     (if ancestorScroll s \<or> ancestorResize s then
        (let (fromReference, s1) =
               (case reference s of
                  Element n \<Rightarrow> getOverflowAncestors overflow n s
                | VirtualElement (Some c) \<Rightarrow> getOverflowAncestors overflow c s
                | VirtualElement None \<Rightarrow> ([], s));
             (fromFloating, s2) = getOverflowAncestors overflow (floating s1) s1
         in s2\<lparr>ancestors := fromReference @ fromFloating\<rparr>)
      else s\<lparr>ancestors := []\<rparr>)"

text \<open>Lines 66-70.\<close>

fun attach_listeners :: "target list \<Rightarrow> state \<Rightarrow> state" where
  "attach_listeners [] s = s"
| "attach_listeners (a # rest) s =
     (let s1 = (if ancestorScroll s then addEventListener a Scroll s else s);
          s2 = (if ancestorResize s1 then addEventListener a Resize s1 else s1)
      in attach_listeners rest s2)"

text \<open>Lines 72-87. The observer was just constructed when \<^verbatim>\<open>observe\<close> is called on it.\<close>

definition install_resizeObserver :: "bool \<Rightarrow> bool \<Rightarrow> state \<Rightarrow> state" where
  "install_resizeObserver elementResize animationFrame s =
     (if elementResize then
        (let s1 = emit NewResizeObserver (s\<lparr>initialUpdate := True, resizeObserver := Some ()\<rparr>);
             s2 = (case reference s1 of
                     Element n \<Rightarrow> if \<not> animationFrame then ro_observe n s1 else s1
                   | VirtualElement c \<Rightarrow> s1);
             s3 = (case reference s2 of
                     VirtualElement (Some c) \<Rightarrow> if \<not> animationFrame then ro_observe c s2 else s2
                   | VirtualElement None \<Rightarrow> s2
                   | Element n \<Rightarrow> s2)
         in ro_observe (floating s3) s3)
      else s)"

text \<open>The callback of the ResizeObserver (lines 75-81).\<close>

definition ro_callback :: "callback \<Rightarrow> state \<Rightarrow> state" where
  "ro_callback cb s =
     (let s1 = (if \<not> initialUpdate s then update cb s else s)
      in s1\<lparr>initialUpdate := False\<rparr>)"

text \<open>
  \<^verbatim>\<open>frameLoop\<close> (lines 97-140). For an element it only installs a new
  IntersectionObserver; the rest of the iteration is that observer's callback.
\<close>

definition frameLoop :: "callback \<Rightarrow> state \<Rightarrow> state" where
  "frameLoop cb s =
     (case reference s of
        Element n \<Rightarrow>
          (let k = io_count s;
               s1 = emit (NewIntersectionObserver k)
                      (s\<lparr>io_count := Suc k, intersectionObserver := Some k\<rparr>)
           in io_observe k n s1)
      | VirtualElement c \<Rightarrow>
          (let (nextRefRect, s1) = getBoundingClientRect s;
               s2 = (if (case prevRefRect s1 of
                           None \<Rightarrow> False
                         | Some prev \<Rightarrow>
                             strict_neq (rect_x nextRefRect) (rect_x prev) \<or>
                             strict_neq (rect_y nextRefRect) (rect_y prev) \<or>
                             strict_neq (rect_width nextRefRect) (rect_width prev) \<or>
                             strict_neq (rect_height nextRefRect) (rect_height prev))
                     then update cb s1 else s1);
               s3 = s2\<lparr>prevRefRect := Some nextRefRect\<rparr>;
               (handle, s4) = requestAnimationFrame s3
           in s4\<lparr>frameId := Some handle\<rparr>))"

text \<open>The callback of the IntersectionObserver (lines 99-121).\<close>

definition io_callback ::
  "callback \<Rightarrow> IntersectionObserverEntry list \<Rightarrow> state \<Rightarrow> error + state" where
  "io_callback cb entries s =
     (case entries of
        [] \<Rightarrow> Inr s
      | referenceEntry # others \<Rightarrow>
          (let nextRefRect = boundingClientRect referenceEntry;
               s1 = (if (case prevRefRect s of
                           None \<Rightarrow> False
                         | Some prev \<Rightarrow>
                             strict_neq (rect_x nextRefRect) (rect_x prev) \<or>
                             strict_neq (rect_y nextRefRect) (rect_y prev) \<or>
                             strict_neq (rect_width nextRefRect) (rect_width prev) \<or>
                             strict_neq (rect_height nextRefRect) (rect_height prev))
                     then update cb s else s);
               s2 = s1\<lparr>prevRefRect := Some nextRefRect\<rparr>;
               (handle, s3) = requestAnimationFrame s2;
               s4 = s3\<lparr>frameId := Some handle\<rparr>
           in and_then (call_optional (intersectionObserver s4) io_disconnect s4)
                (\<lambda>s5. Inr (s5\<lparr>intersectionObserver := None\<rparr>))))"

text \<open>
  \<^verbatim>\<open>autoUpdate(reference, floating, update, options)\<close>. The last step hands the
  returned function to the caller.
\<close>

definition autoUpdate ::
  "environment \<Rightarrow> ReferenceElement \<Rightarrow> node \<Rightarrow> callback \<Rightarrow> Options \<Rightarrow> state" where
  "autoUpdate env refEl floatEl cb options =
     (let ancestorScroll0 = or_default (o_ancestorScroll options) True;
          ancestorResize0 = or_default (o_ancestorResize options) True;
          elementResize = or_default (o_elementResize options) True;
          animationFrame = or_default (o_animationFrame options) False;
          s0 = closure env refEl floatEl (ancestorScroll0 \<and> \<not> animationFrame) ancestorResize0;
          s1 = discover_ancestors (env_overflowAncestors env) s0;
          s2 = attach_listeners (ancestors s1) s1;
          s3 = install_resizeObserver elementResize animationFrame s2;
          s4 = (if animationFrame then frameLoop cb s3 else s3);
          s5 = update cb s4
      in s5\<lparr>returned := True\<rparr>)"

section \<open>What the page does afterwards\<close>

text \<open>
  The browser delivers an event only to what is registered: a scroll or resize
  event runs \<^verbatim>\<open>update\<close> when the listener is on the target, the ResizeObserver
  fires for nodes it observes, an IntersectionObserver fires while it is
  connected and has an entry to deliver, and an animation frame runs a callback
  that is pending, once. \<open>LayoutShift\<close> moves the reference; \<open>Dispose\<close> is the
  caller invoking the returned function between two events.
\<close>

datatype event =
    ScrollEvent target
  | ResizeEvent target
  | ResizeObservation "node list"
  | Intersection nat "IntersectionObserverEntry list"
  | AnimationFrame nat
  | LayoutShift DOMRect
  | Dispose

fun step :: "callback \<Rightarrow> event \<Rightarrow> state \<Rightarrow> error + state" where
  "step cb (ScrollEvent t) s =
     Inr (if (t, Scroll) \<in> set (listeners s) then update cb s else s)"
| "step cb (ResizeEvent t) s =
     Inr (if (t, Resize) \<in> set (listeners s) then update cb s else s)"
| "step cb (ResizeObservation ns) s =
     Inr (if ns \<noteq> [] \<and> set ns \<subseteq> set (ro_targets s) then ro_callback cb s else s)"
| "step cb (Intersection k entries) s =
     (if k \<in> fst ` set (io_targets s) \<and> entries \<noteq> [] then io_callback cb entries s
      else Inr s)"
| "step cb (AnimationFrame i) s =
     Inr (if i \<in> set (raf_pending s)
          then frameLoop cb (s\<lparr>raf_pending := removeAll i (raf_pending s)\<rparr>) else s)"
| "step cb (LayoutShift r) s = Inr (s\<lparr>ref_rect := r\<rparr>)"
| "step cb Dispose s = dispose s"

fun run :: "callback \<Rightarrow> event list \<Rightarrow> state \<Rightarrow> error + state" where
  "run cb [] s = Inr s"
| "run cb (e # es) s = and_then (step cb e s) (run cb es)"

text \<open>
  The firings of the ResizeObserver that the browser can deliver one after the
  other: each is for some of the nodes the observer observes when it fires.
\<close>

fun deliverable :: "callback \<Rightarrow> node list list \<Rightarrow> state \<Rightarrow> bool" where
  "deliverable cb [] s = True"
| "deliverable cb (ns # rest) s =
     (ns \<noteq> [] \<and> set ns \<subseteq> set (ro_targets s) \<and> deliverable cb rest (ro_callback cb s))"

text \<open>An event with which the intersection trigger delivers a sample.\<close>

fun delivers_sample :: "event \<Rightarrow> bool" where
  "delivers_sample (Intersection k (e # es)) = True"
| "delivers_sample ev = False"

section \<open>Reading the trace\<close>

text \<open>The nodes whose overflow ancestors were asked for, in order.\<close>

fun overflow_query :: "effect \<Rightarrow> node list" where
  "overflow_query (GetOverflowAncestors n) = [n]"
| "overflow_query e = []"

definition overflow_queries :: "effect list \<Rightarrow> node list" where
  "overflow_queries tr = concat (map overflow_query tr)"

text \<open>The calls of \<^verbatim>\<open>addEventListener\<close> and of \<^verbatim>\<open>removeEventListener\<close>.\<close>

fun listener_added :: "effect \<Rightarrow> (target \<times> evtype) list" where
  "listener_added (AddEventListener t k) = [(t, k)]"
| "listener_added e = []"

definition listeners_added :: "effect list \<Rightarrow> (target \<times> evtype) list" where
  "listeners_added tr = concat (map listener_added tr)"

fun listener_removed :: "effect \<Rightarrow> (target \<times> evtype) list" where
  "listener_removed (RemoveEventListener t k) = [(t, k)]"
| "listener_removed e = []"

definition listeners_removed :: "effect list \<Rightarrow> (target \<times> evtype) list" where
  "listeners_removed tr = concat (map listener_removed tr)"

text \<open>The nodes handed to the ResizeObserver.\<close>

fun watcher_observed :: "effect \<Rightarrow> node list" where
  "watcher_observed (ROObserve n) = [n]"
| "watcher_observed e = []"

definition watched :: "effect list \<Rightarrow> node list" where
  "watched tr = concat (map watcher_observed tr)"

text \<open>
  The nodes whose ancestors setup collects (lines 57-62), and the nodes setup
  hands to the ResizeObserver (lines 82-86).
\<close>

definition discovery_nodes :: "ReferenceElement \<Rightarrow> node \<Rightarrow> bool \<Rightarrow> bool \<Rightarrow> node list" where
  "discovery_nodes refEl floatEl sc rs =
     (if sc \<or> rs then
        (case refEl of
           Element n \<Rightarrow> [n]
         | VirtualElement (Some c) \<Rightarrow> [c]
         | VirtualElement None \<Rightarrow> []) @ [floatEl]
      else [])"

definition watch_nodes :: "ReferenceElement \<Rightarrow> node \<Rightarrow> bool \<Rightarrow> node list" where
  "watch_nodes refEl floatEl animationFrame =
     (if animationFrame then []
      else (case refEl of
              Element n \<Rightarrow> [n]
            | VirtualElement (Some c) \<Rightarrow> [c]
            | VirtualElement None \<Rightarrow> [])) @ [floatEl]"

fun observe_all :: "node list \<Rightarrow> node list \<Rightarrow> node list" where
  "observe_all [] ts = ts"
| "observe_all (n # ns) ts = observe_all ns (if n \<in> set ts then ts else ts @ [n])"

text \<open>The comparison both branches of \<^verbatim>\<open>frameLoop\<close> make (lines 106-112 and 127-133).\<close>

definition differs :: "DOMRect option \<Rightarrow> DOMRect \<Rightarrow> bool" where
  "differs prevRect nextRect =
     (case prevRect of
        None \<Rightarrow> False
      | Some prev \<Rightarrow>
          strict_neq (rect_x nextRect) (rect_x prev) \<or>
          strict_neq (rect_y nextRect) (rect_y prev) \<or>
          strict_neq (rect_width nextRect) (rect_width prev) \<or>
          strict_neq (rect_height nextRect) (rect_height prev))"

text \<open>The listener calls that the two loops over the ancestors make, and what they leave registered.\<close>

fun attach_trace :: "target list \<Rightarrow> bool \<Rightarrow> bool \<Rightarrow> effect list" where
  "attach_trace [] sc rs = []"
| "attach_trace (a # rest) sc rs =
     (if sc then [AddEventListener a Scroll] else []) @
     (if rs then [AddEventListener a Resize] else []) @ attach_trace rest sc rs"

fun attach_one :: "target \<times> evtype \<Rightarrow> (target \<times> evtype) list \<Rightarrow> (target \<times> evtype) list" where
  "attach_one p ls = (if p \<in> set ls then ls else ls @ [p])"

fun attach_list ::
  "target list \<Rightarrow> bool \<Rightarrow> bool \<Rightarrow> (target \<times> evtype) list \<Rightarrow> (target \<times> evtype) list" where
  "attach_list [] sc rs ls = ls"
| "attach_list (a # rest) sc rs ls =
     attach_list rest sc rs
       ((if rs then attach_one (a, Resize) else id) ((if sc then attach_one (a, Scroll) else id) ls))"

fun detach_trace :: "target list \<Rightarrow> bool \<Rightarrow> bool \<Rightarrow> effect list" where
  "detach_trace [] sc rs = []"
| "detach_trace (a # rest) sc rs =
     (if sc then [RemoveEventListener a Scroll] else []) @
     (if rs then [RemoveEventListener a Resize] else []) @ detach_trace rest sc rs"

fun detach_list ::
  "target list \<Rightarrow> bool \<Rightarrow> bool \<Rightarrow> (target \<times> evtype) list \<Rightarrow> (target \<times> evtype) list" where
  "detach_list [] sc rs ls = ls"
| "detach_list (a # rest) sc rs ls =
     detach_list rest sc rs
       ((if rs then removeAll (a, Resize) else id) ((if sc then removeAll (a, Scroll) else id) ls))"

text \<open>What the returned function emits in a state, and the state it leaves.\<close>

definition dispose_trace :: "state \<Rightarrow> effect list" where
  "dispose_trace s =
     detach_trace (ancestors s) (ancestorScroll s) (ancestorResize s) @
     (case resizeObserver s of None \<Rightarrow> [] | Some h \<Rightarrow> [RODisconnect]) @
     (case intersectionObserver s of None \<Rightarrow> [] | Some k \<Rightarrow> [IODisconnect k]) @
     (case frameId s of
        None \<Rightarrow> []
      | Some i \<Rightarrow> if i \<noteq> 0 then [CancelAnimationFrame i] else [])"

definition after_dispose :: "state \<Rightarrow> state" where
  "after_dispose s =
     s\<lparr>listeners :=
         detach_list (ancestors s) (ancestorScroll s) (ancestorResize s) (listeners s),
       resizeObserver := None,
       ro_targets := (case resizeObserver s of None \<Rightarrow> ro_targets s | Some h \<Rightarrow> []),
       intersectionObserver := None,
       io_targets :=
         (case intersectionObserver s of
            None \<Rightarrow> io_targets s
          | Some k \<Rightarrow> filter (\<lambda>p. fst p \<noteq> k) (io_targets s)),
       raf_pending :=
         (case frameId s of
            None \<Rightarrow> raf_pending s
          | Some i \<Rightarrow> if i \<noteq> 0 then removeAll i (raf_pending s) else raf_pending s),
       trace := trace s @ dispose_trace s\<rparr>"

text \<open>
  What an iteration of the poller does after the comparison: lines 116-120 in
  the trigger's callback, lines 137-138 on a virtual reference.
\<close>

definition io_finish :: "IntersectionObserverEntry \<Rightarrow> state \<Rightarrow> state" where
  "io_finish e s =
     s\<lparr>prevRefRect := Some (boundingClientRect e),
       raf_count := Suc (raf_count s),
       raf_pending := raf_pending s @ [Suc (raf_count s)],
       frameId := Some (Suc (raf_count s)),
       io_targets :=
         (case intersectionObserver s of
            None \<Rightarrow> io_targets s
          | Some k \<Rightarrow> filter (\<lambda>p. fst p \<noteq> k) (io_targets s)),
       intersectionObserver := None,
       trace :=
         trace s @ [RequestAnimationFrame (Suc (raf_count s))] @
         (case intersectionObserver s of None \<Rightarrow> [] | Some k \<Rightarrow> [IODisconnect k])\<rparr>"

definition poll_finish :: "DOMRect \<Rightarrow> state \<Rightarrow> state" where
  "poll_finish r s =
     s\<lparr>prevRefRect := Some r,
       raf_count := Suc (raf_count s),
       raf_pending := raf_pending s @ [Suc (raf_count s)],
       frameId := Some (Suc (raf_count s)),
       trace := trace s @ [RequestAnimationFrame (Suc (raf_count s))]\<rparr>"

text \<open>A rectangle one of whose four compared fields is \<^verbatim>\<open>NaN\<close>.\<close>

definition has_nan :: "DOMRect \<Rightarrow> bool" where
  "has_nan r \<longleftrightarrow>
     rect_x r = NaN \<or> rect_y r = NaN \<or> rect_width r = NaN \<or> rect_height r = NaN"

text \<open>
  The state setup returns, written out field by field: \<open>sc\<close> and \<open>rs\<close> are the
  two ancestor flags as the closure keeps them, \<open>er\<close> and \<open>af\<close> the other two
  options after defaulting.
\<close>

definition poll_start :: "environment \<Rightarrow> ReferenceElement \<Rightarrow> effect list" where
  "poll_start env refEl =
     (case refEl of
        Element n \<Rightarrow> [NewIntersectionObserver (env_io_count env), IOObserve (env_io_count env) n]
      | VirtualElement c \<Rightarrow>
          [GetBoundingClientRect, RequestAnimationFrame (Suc (env_raf_count env))])"

definition after_setup ::
  "environment \<Rightarrow> ReferenceElement \<Rightarrow> node \<Rightarrow> bool \<Rightarrow> bool \<Rightarrow> bool \<Rightarrow> bool \<Rightarrow> state" where
  "after_setup env refEl floatEl sc rs er af =
     \<lparr>reference = refEl, floating = floatEl,
      ancestorScroll = sc, ancestorResize = rs,
      ancestors = concat (map (env_overflowAncestors env) (discovery_nodes refEl floatEl sc rs)),
      resizeObserver = (if er then Some () else None),
      initialUpdate = True,
      frameId = (if af \<and> \<not> isElement refEl then Some (Suc (env_raf_count env)) else None),
      intersectionObserver = (if af \<and> isElement refEl then Some (env_io_count env) else None),
      prevRefRect = (if af \<and> \<not> isElement refEl then Some (env_rect env) else None),
      listeners =
        attach_list
          (concat (map (env_overflowAncestors env) (discovery_nodes refEl floatEl sc rs))) sc rs [],
      ro_targets = (if er then observe_all (watch_nodes refEl floatEl af) [] else []),
      io_targets =
        (if af then (case refEl of Element n \<Rightarrow> [(env_io_count env, n)] | VirtualElement c \<Rightarrow> [])
         else []),
      io_count = (if af \<and> isElement refEl then Suc (env_io_count env) else env_io_count env),
      raf_pending = (if af \<and> \<not> isElement refEl then [Suc (env_raf_count env)] else []),
      raf_count = (if af \<and> \<not> isElement refEl then Suc (env_raf_count env) else env_raf_count env),
      ref_rect = env_rect env,
      trace =
        map GetOverflowAncestors (discovery_nodes refEl floatEl sc rs) @
        attach_trace
          (concat (map (env_overflowAncestors env) (discovery_nodes refEl floatEl sc rs))) sc rs @
        (if er then NewResizeObserver # map ROObserve (watch_nodes refEl floatEl af) else []) @
        (if af then poll_start env refEl else []) @
        [Update],
      returned = True\<rparr>"

section \<open>Invariants of a running instance\<close>

text \<open>
  Everything the page still holds for the instance is reachable from the closure:
  a connected observer is the one in its variable, a pending frame is the one in
  \<^verbatim>\<open>frameId\<close>, a listener sits on an ancestor under a flag that is set, and a
  frame is never pending while an IntersectionObserver is connected.
\<close>

definition wired :: "state \<Rightarrow> bool" where
  "wired s \<longleftrightarrow>
     (resizeObserver s = None \<longrightarrow> ro_targets s = []) \<and>
     (\<forall>p \<in> set (io_targets s). intersectionObserver s = Some (fst p)) \<and>
     (\<forall>i \<in> set (raf_pending s). frameId s = Some i \<and> i \<noteq> 0) \<and>
     (raf_pending s \<noteq> [] \<longrightarrow> io_targets s = []) \<and>
     (\<forall>p \<in> set (listeners s).
        fst p \<in> set (ancestors s) \<and>
        (if snd p = Scroll then ancestorScroll s else ancestorResize s))"

text \<open>Nothing is registered any more.\<close>

definition quiet :: "state \<Rightarrow> bool" where
  "quiet s \<longleftrightarrow>
     listeners s = [] \<and> ro_targets s = [] \<and> io_targets s = [] \<and> raf_pending s = []"

section \<open>A page and options to run the instance on\<close>

definition demo_overflow :: "node \<Rightarrow> target list" where
  "demo_overflow n = (if n = 1 then [10, 100] else if n = 2 then [20, 100] else [])"

definition demo_rect :: "real \<Rightarrow> DOMRect" where
  "demo_rect a =
     \<lparr>rect_x = Number a, rect_y = Number 0, rect_width = Number 10, rect_height = Number 10\<rparr>"

definition nan_rect :: DOMRect where
  "nan_rect =
     \<lparr>rect_x = NaN, rect_y = Number 0, rect_width = Number 10, rect_height = Number 10\<rparr>"

text \<open>A callback that never calls the returned function, and one that always does.\<close>

definition plain_update :: callback where
  "plain_update s = False"

definition disposing_update :: callback where
  "disposing_update s = True"

definition demo_entry :: "real \<Rightarrow> IntersectionObserverEntry" where
  "demo_entry a = \<lparr>boundingClientRect = demo_rect a\<rparr>"

definition demo_env :: environment where
  "demo_env =
     \<lparr>env_overflowAncestors = demo_overflow, env_rect = demo_rect 0,
      env_raf_count = 0, env_io_count = 0\<rparr>"

definition default_options :: Options where
  "default_options =
     \<lparr>o_ancestorScroll = None, o_ancestorResize = None,
      o_elementResize = None, o_animationFrame = None\<rparr>"

definition polling_options :: Options where
  "polling_options =
     \<lparr>o_ancestorScroll = Some True, o_ancestorResize = None,
      o_elementResize = Some True, o_animationFrame = Some True\<rparr>"

definition bare_options :: Options where
  "bare_options =
     \<lparr>o_ancestorScroll = Some False, o_ancestorResize = Some False,
      o_elementResize = None, o_animationFrame = None\<rparr>"

definition demo_virtual :: state where
  "demo_virtual = autoUpdate demo_env (VirtualElement None) 2 plain_update polling_options"

definition demo_element :: state where
  "demo_element = autoUpdate demo_env (Element 1) 2 plain_update polling_options"

text \<open>The same two instances with a callback that calls the returned function.\<close>

definition demo_virtual_disposing :: state where
  "demo_virtual_disposing =
     autoUpdate demo_env (VirtualElement None) 2 disposing_update polling_options"

definition demo_element_disposing :: state where
  "demo_element_disposing =
     autoUpdate demo_env (Element 1) 2 disposing_update polling_options"

section \<open>How each part rewrites the state\<close>

lemma call_optional_Inr [simp]:
  "call_optional h m s = Inr (case h of None \<Rightarrow> s | Some x \<Rightarrow> m x s)"
  by (simp add: call_optional_def call_method_def split: option.split)

lemma and_then_Inr [simp]: "and_then (Inr s) k = k s"
  by (simp add: and_then_def)

lemma detach_listeners_eq:
  "detach_listeners as s =
     s\<lparr>listeners := detach_list as (ancestorScroll s) (ancestorResize s) (listeners s),
       trace := trace s @ detach_trace as (ancestorScroll s) (ancestorResize s)\<rparr>"
  by (induction as arbitrary: s) (simp_all add: removeEventListener_def emit_def)

lemma attach_listeners_eq:
  "attach_listeners as s =
     s\<lparr>listeners := attach_list as (ancestorScroll s) (ancestorResize s) (listeners s),
       trace := trace s @ attach_trace as (ancestorScroll s) (ancestorResize s)\<rparr>"
  by (induction as arbitrary: s) (simp_all add: addEventListener_def emit_def)

lemma count_attach_trace [simp]: "count_list (attach_trace as sc rs) Update = 0"
  by (induction as) simp_all

lemma count_detach_trace [simp]: "count_list (detach_trace as sc rs) Update = 0"
  by (induction as) simp_all

lemmas ops =
  emit_def getOverflowAncestors_def ro_observe_def ro_disconnect_def
  io_observe_def io_disconnect_def getBoundingClientRect_def requestAnimationFrame_def
  cancelAnimationFrame_def

lemma discover_ancestors_eq:
  "discover_ancestors overflow s =
     s\<lparr>ancestors :=
         concat (map overflow
           (discovery_nodes (reference s) (floating s) (ancestorScroll s) (ancestorResize s))),
       trace :=
         trace s @
         map GetOverflowAncestors
           (discovery_nodes (reference s) (floating s) (ancestorScroll s) (ancestorResize s))\<rparr>"
  by (simp add: discover_ancestors_def discovery_nodes_def getOverflowAncestors_def emit_def
        split: ReferenceElement.split option.split)

lemma install_resizeObserver_eq:
  "install_resizeObserver er af s =
     (if er then
        s\<lparr>resizeObserver := Some (), initialUpdate := True,
          ro_targets := observe_all (watch_nodes (reference s) (floating s) af) (ro_targets s),
          trace :=
            trace s @ NewResizeObserver # map ROObserve (watch_nodes (reference s) (floating s) af)\<rparr>
      else s)"
  by (simp add: install_resizeObserver_def watch_nodes_def ro_observe_def emit_def Let_def
        split: ReferenceElement.split option.split)

subsection \<open>The returned function\<close>

lemma dispose_eq: "dispose s = Inr (after_dispose s)"
  by (cases "resizeObserver s"; cases "intersectionObserver s"; cases "frameId s")
     (simp_all add: dispose_def after_dispose_def dispose_trace_def detach_listeners_eq ops Let_def)

lemma dispose_total: "\<exists>d. dispose s = Inr d"
  by (simp add: dispose_eq)

lemma call_disposer_eq: "call_disposer s = after_dispose s"
  by (simp add: call_disposer_def dispose_eq)

lemma after_dispose_fields:
  "reference (after_dispose s) = reference s"
  "floating (after_dispose s) = floating s"
  "ancestorScroll (after_dispose s) = ancestorScroll s"
  "ancestorResize (after_dispose s) = ancestorResize s"
  "ancestors (after_dispose s) = ancestors s"
  "resizeObserver (after_dispose s) = None"
  "initialUpdate (after_dispose s) = initialUpdate s"
  "frameId (after_dispose s) = frameId s"
  "intersectionObserver (after_dispose s) = None"
  "prevRefRect (after_dispose s) = prevRefRect s"
  "listeners (after_dispose s) =
     detach_list (ancestors s) (ancestorScroll s) (ancestorResize s) (listeners s)"
  "ro_targets (after_dispose s) =
     (case resizeObserver s of None \<Rightarrow> ro_targets s | Some h \<Rightarrow> [])"
  "io_targets (after_dispose s) =
     (case intersectionObserver s of
        None \<Rightarrow> io_targets s
      | Some k \<Rightarrow> filter (\<lambda>p. fst p \<noteq> k) (io_targets s))"
  "io_count (after_dispose s) = io_count s"
  "raf_pending (after_dispose s) =
     (case frameId s of
        None \<Rightarrow> raf_pending s
      | Some i \<Rightarrow> if i \<noteq> 0 then removeAll i (raf_pending s) else raf_pending s)"
  "raf_count (after_dispose s) = raf_count s"
  "ref_rect (after_dispose s) = ref_rect s"
  "trace (after_dispose s) = trace s @ dispose_trace s"
  "returned (after_dispose s) = returned s"
  by (simp_all add: after_dispose_def)

lemma dispose_trace_emit [simp]: "dispose_trace (emit e s) = dispose_trace s"
  by (simp add: dispose_trace_def emit_def)

lemma count_dispose_trace [simp]: "count_list (dispose_trace s) Update = 0"
  by (cases "resizeObserver s"; cases "intersectionObserver s"; cases "frameId s")
     (simp_all add: dispose_trace_def)

subsection \<open>The callback\<close>

lemma emit_fields:
  "reference (emit e s) = reference s"
  "floating (emit e s) = floating s"
  "ancestorScroll (emit e s) = ancestorScroll s"
  "ancestorResize (emit e s) = ancestorResize s"
  "ancestors (emit e s) = ancestors s"
  "resizeObserver (emit e s) = resizeObserver s"
  "initialUpdate (emit e s) = initialUpdate s"
  "frameId (emit e s) = frameId s"
  "intersectionObserver (emit e s) = intersectionObserver s"
  "prevRefRect (emit e s) = prevRefRect s"
  "listeners (emit e s) = listeners s"
  "ro_targets (emit e s) = ro_targets s"
  "io_targets (emit e s) = io_targets s"
  "io_count (emit e s) = io_count s"
  "raf_pending (emit e s) = raf_pending s"
  "raf_count (emit e s) = raf_count s"
  "ref_rect (emit e s) = ref_rect s"
  "trace (emit e s) = trace s @ [e]"
  "returned (emit e s) = returned s"
  by (simp_all add: emit_def)

lemma update_eq:
  "update cb s =
     (if returned s \<and> cb (emit Update s) then after_dispose (emit Update s) else emit Update s)"
  by (simp add: update_def call_disposer_eq Let_def emit_fields)

lemma update_not_returned: "\<not> returned s \<Longrightarrow> update cb s = emit Update s"
  by (simp add: update_eq)

lemma update_keeps:
  "reference (update cb s) = reference s"
  "floating (update cb s) = floating s"
  "ancestorScroll (update cb s) = ancestorScroll s"
  "ancestorResize (update cb s) = ancestorResize s"
  "ancestors (update cb s) = ancestors s"
  "initialUpdate (update cb s) = initialUpdate s"
  "frameId (update cb s) = frameId s"
  "prevRefRect (update cb s) = prevRefRect s"
  "io_count (update cb s) = io_count s"
  "raf_count (update cb s) = raf_count s"
  "ref_rect (update cb s) = ref_rect s"
  "returned (update cb s) = returned s"
  by (simp_all add: update_eq after_dispose_fields emit_fields)

lemma update_trace:
  "trace (update cb s) =
     trace s @ Update # (if returned s \<and> cb (emit Update s) then dispose_trace s else [])"
  by (simp add: update_eq after_dispose_fields emit_fields)

lemma update_updates: "updates (update cb s) = Suc (updates s)"
  by (simp add: updates_def update_trace)

subsection \<open>The observers' callbacks and the frame loop\<close>

lemma ro_callback_eq:
  "ro_callback cb s = (if initialUpdate s then s else update cb s)\<lparr>initialUpdate := False\<rparr>"
  by (simp add: ro_callback_def)

lemma io_callback_Nil: "io_callback cb [] s = Inr s"
  by (simp add: io_callback_def)

lemma io_callback_Cons:
  "io_callback cb (e # es) s =
     Inr (io_finish e
            (if differs (prevRefRect s) (boundingClientRect e) then update cb s else s))"
  by (cases "prevRefRect s";
      cases "intersectionObserver
               (if differs (prevRefRect s) (boundingClientRect e) then update cb s else s)")
     (simp_all add: io_callback_def io_finish_def differs_def ops Let_def)

lemma io_callback_total: "\<exists>d. io_callback cb es s = Inr d"
  by (cases es) (simp_all add: io_callback_Nil io_callback_Cons)

lemma frameLoop_Element:
  "reference s = Element n \<Longrightarrow>
   frameLoop cb s =
     s\<lparr>io_count := Suc (io_count s),
       intersectionObserver := Some (io_count s),
       io_targets := io_targets s @ [(io_count s, n)],
       trace := trace s @ [NewIntersectionObserver (io_count s), IOObserve (io_count s) n]\<rparr>"
  by (simp add: frameLoop_def ops Let_def)

lemma frameLoop_Virtual:
  "reference s = VirtualElement c \<Longrightarrow>
   frameLoop cb s =
     poll_finish (ref_rect s)
       (if differs (prevRefRect s) (ref_rect s) then update cb (emit GetBoundingClientRect s)
        else emit GetBoundingClientRect s)"
  by (cases "prevRefRect s") (simp_all add: frameLoop_def poll_finish_def differs_def ops Let_def)

lemma io_finish_fields:
  "reference (io_finish e s) = reference s"
  "floating (io_finish e s) = floating s"
  "ancestorScroll (io_finish e s) = ancestorScroll s"
  "ancestorResize (io_finish e s) = ancestorResize s"
  "ancestors (io_finish e s) = ancestors s"
  "resizeObserver (io_finish e s) = resizeObserver s"
  "initialUpdate (io_finish e s) = initialUpdate s"
  "frameId (io_finish e s) = Some (Suc (raf_count s))"
  "intersectionObserver (io_finish e s) = None"
  "prevRefRect (io_finish e s) = Some (boundingClientRect e)"
  "listeners (io_finish e s) = listeners s"
  "ro_targets (io_finish e s) = ro_targets s"
  "io_targets (io_finish e s) =
     (case intersectionObserver s of
        None \<Rightarrow> io_targets s
      | Some k \<Rightarrow> filter (\<lambda>p. fst p \<noteq> k) (io_targets s))"
  "io_count (io_finish e s) = io_count s"
  "raf_pending (io_finish e s) = raf_pending s @ [Suc (raf_count s)]"
  "raf_count (io_finish e s) = Suc (raf_count s)"
  "ref_rect (io_finish e s) = ref_rect s"
  "trace (io_finish e s) =
     trace s @ [RequestAnimationFrame (Suc (raf_count s))] @
     (case intersectionObserver s of None \<Rightarrow> [] | Some k \<Rightarrow> [IODisconnect k])"
  "returned (io_finish e s) = returned s"
  by (simp_all add: io_finish_def)

lemma poll_finish_fields:
  "reference (poll_finish r s) = reference s"
  "floating (poll_finish r s) = floating s"
  "ancestorScroll (poll_finish r s) = ancestorScroll s"
  "ancestorResize (poll_finish r s) = ancestorResize s"
  "ancestors (poll_finish r s) = ancestors s"
  "resizeObserver (poll_finish r s) = resizeObserver s"
  "initialUpdate (poll_finish r s) = initialUpdate s"
  "frameId (poll_finish r s) = Some (Suc (raf_count s))"
  "intersectionObserver (poll_finish r s) = intersectionObserver s"
  "prevRefRect (poll_finish r s) = Some r"
  "listeners (poll_finish r s) = listeners s"
  "ro_targets (poll_finish r s) = ro_targets s"
  "io_targets (poll_finish r s) = io_targets s"
  "io_count (poll_finish r s) = io_count s"
  "raf_pending (poll_finish r s) = raf_pending s @ [Suc (raf_count s)]"
  "raf_count (poll_finish r s) = Suc (raf_count s)"
  "ref_rect (poll_finish r s) = ref_rect s"
  "trace (poll_finish r s) = trace s @ [RequestAnimationFrame (Suc (raf_count s))]"
  "returned (poll_finish r s) = returned s"
  by (simp_all add: poll_finish_def)

subsection \<open>Events never throw\<close>

lemma step_total: "\<exists>d. step cb e s = Inr d"
  by (cases e) (simp_all add: dispose_total io_callback_total)

lemma run_total: "\<exists>d. run cb es s = Inr d"
proof (induction es arbitrary: s)
  case Nil
  show ?case by simp
next
  case (Cons e es)
  obtain s1 where "step cb e s = Inr s1" using step_total by blast
  with Cons show ?case by simp
qed

lemma run_append: "run cb (xs @ ys) s = and_then (run cb xs s) (run cb ys)"
proof (induction xs arbitrary: s)
  case Nil
  show ?case by simp
next
  case (Cons e xs)
  obtain s1 where "step cb e s = Inr s1" using step_total by blast
  with Cons show ?case by simp
qed

subsection \<open>Setup\<close>

lemma autoUpdate_eq:
  "autoUpdate env refEl floatEl cb options =
     after_setup env refEl floatEl
       (or_default (o_ancestorScroll options) True \<and> \<not> or_default (o_animationFrame options) False)
       (or_default (o_ancestorResize options) True)
       (or_default (o_elementResize options) True)
       (or_default (o_animationFrame options) False)"
proof (cases refEl)
  case (Element n)
  show ?thesis
    by (cases "or_default (o_elementResize options) True";
        cases "or_default (o_animationFrame options) False")
       (simp_all add: Element autoUpdate_def after_setup_def poll_start_def closure_def
          discover_ancestors_eq attach_listeners_eq install_resizeObserver_eq
          frameLoop_Element update_not_returned ops Let_def)
next
  case (VirtualElement c)
  show ?thesis
    by (cases "or_default (o_elementResize options) True";
        cases "or_default (o_animationFrame options) False")
       (simp_all add: VirtualElement autoUpdate_def after_setup_def poll_start_def closure_def
          discover_ancestors_eq attach_listeners_eq install_resizeObserver_eq
          frameLoop_Virtual poll_finish_def differs_def update_not_returned ops Let_def)
qed

lemma after_setup_fields:
  "reference (after_setup env refEl floatEl sc rs er af) = refEl"
  "floating (after_setup env refEl floatEl sc rs er af) = floatEl"
  "ancestorScroll (after_setup env refEl floatEl sc rs er af) = sc"
  "ancestorResize (after_setup env refEl floatEl sc rs er af) = rs"
  "ancestors (after_setup env refEl floatEl sc rs er af) =
     concat (map (env_overflowAncestors env) (discovery_nodes refEl floatEl sc rs))"
  "resizeObserver (after_setup env refEl floatEl sc rs er af) = (if er then Some () else None)"
  "initialUpdate (after_setup env refEl floatEl sc rs er af) = True"
  "frameId (after_setup env refEl floatEl sc rs er af) =
     (if af \<and> \<not> isElement refEl then Some (Suc (env_raf_count env)) else None)"
  "intersectionObserver (after_setup env refEl floatEl sc rs er af) =
     (if af \<and> isElement refEl then Some (env_io_count env) else None)"
  "prevRefRect (after_setup env refEl floatEl sc rs er af) =
     (if af \<and> \<not> isElement refEl then Some (env_rect env) else None)"
  "listeners (after_setup env refEl floatEl sc rs er af) =
     attach_list
       (concat (map (env_overflowAncestors env) (discovery_nodes refEl floatEl sc rs))) sc rs []"
  "ro_targets (after_setup env refEl floatEl sc rs er af) =
     (if er then observe_all (watch_nodes refEl floatEl af) [] else [])"
  "io_targets (after_setup env refEl floatEl sc rs er af) =
     (if af then (case refEl of Element n \<Rightarrow> [(env_io_count env, n)] | VirtualElement c \<Rightarrow> [])
      else [])"
  "raf_pending (after_setup env refEl floatEl sc rs er af) =
     (if af \<and> \<not> isElement refEl then [Suc (env_raf_count env)] else [])"
  "ref_rect (after_setup env refEl floatEl sc rs er af) = env_rect env"
  "trace (after_setup env refEl floatEl sc rs er af) =
     map GetOverflowAncestors (discovery_nodes refEl floatEl sc rs) @
     attach_trace
       (concat (map (env_overflowAncestors env) (discovery_nodes refEl floatEl sc rs))) sc rs @
     (if er then NewResizeObserver # map ROObserve (watch_nodes refEl floatEl af) else []) @
     (if af then poll_start env refEl else []) @
     [Update]"
  "returned (after_setup env refEl floatEl sc rs er af) = True"
  by (simp_all add: after_setup_def)

section \<open>The invariants hold\<close>

lemma count_map_GetOverflowAncestors [simp]: "count_list (map GetOverflowAncestors ns) Update = 0"
  by (induction ns) simp_all

lemma count_map_ROObserve [simp]: "count_list (map ROObserve ns) Update = 0"
  by (induction ns) simp_all

lemma set_detach_list:
  "set (detach_list as sc rs ls) =
     {p \<in> set ls. \<not> (fst p \<in> set as \<and> (if snd p = Scroll then sc else rs))}"
  by (induction as arbitrary: ls) (auto split: if_splits intro: evtype.exhaust)

lemma detach_list_Nil [simp]: "detach_list as sc rs [] = []"
  by (induction as) auto

lemma set_attach_list:
  "set (attach_list as sc rs ls) =
     set ls \<union> {p. fst p \<in> set as \<and> (if snd p = Scroll then sc else rs)}"
  by (induction as arbitrary: ls) (auto split: if_splits intro: evtype.exhaust)

lemma removeAll_all_same: "\<forall>i \<in> set xs. i = j \<Longrightarrow> removeAll j xs = []"
  by (induction xs) auto

lemma filter_all_same: "\<forall>p \<in> set xs. fst p = k \<Longrightarrow> filter (\<lambda>p. fst p \<noteq> k) xs = []"
  by (induction xs) auto

lemma no_members_Nil: "\<forall>x \<in> set xs. False \<Longrightarrow> xs = []"
  by (cases xs) auto

lemma wired_after_setup: "wired (after_setup env refEl floatEl sc rs er af)"
  unfolding wired_def after_setup_fields
  by (cases refEl; cases af) (simp_all add: set_attach_list)

lemma wired_autoUpdate: "wired (autoUpdate env refEl floatEl cb options)"
  by (simp add: autoUpdate_eq wired_after_setup)

text \<open>The returned function leaves nothing registered in a wired state.\<close>

lemma wired_after_dispose:
  assumes "wired s"
  shows "quiet (after_dispose s)"
proof -
  have l: "detach_list (ancestors s) (ancestorScroll s) (ancestorResize s) (listeners s) = []"
    using assms by (intro no_members_Nil) (auto simp: wired_def set_detach_list)
  have r: "(case resizeObserver s of None \<Rightarrow> ro_targets s | Some h \<Rightarrow> []) = []"
    using assms by (cases "resizeObserver s") (simp_all add: wired_def)
  have i: "(case intersectionObserver s of
              None \<Rightarrow> io_targets s
            | Some k \<Rightarrow> filter (\<lambda>p. fst p \<noteq> k) (io_targets s)) = []"
  proof (cases "intersectionObserver s")
    case None
    with assms have "\<forall>p \<in> set (io_targets s). False" by (simp add: wired_def)
    with None show ?thesis by (simp add: no_members_Nil)
  next
    case (Some k)
    with assms have "\<forall>p \<in> set (io_targets s). fst p = k" by (simp add: wired_def)
    with Some show ?thesis by (simp add: filter_all_same)
  qed
  have f: "(case frameId s of
              None \<Rightarrow> raf_pending s
            | Some j \<Rightarrow> if j \<noteq> 0 then removeAll j (raf_pending s) else raf_pending s) = []"
  proof (cases "frameId s")
    case None
    with assms have "\<forall>j \<in> set (raf_pending s). False" by (simp add: wired_def)
    with None show ?thesis by (simp add: no_members_Nil)
  next
    case (Some j)
    with assms have all: "\<forall>i \<in> set (raf_pending s). i = j \<and> i \<noteq> 0"
      by (simp add: wired_def)
    show ?thesis
    proof (cases "j = 0")
      case True
      with all have "raf_pending s = []" by (cases "raf_pending s") auto
      with Some True show ?thesis by simp
    next
      case False
      with Some all show ?thesis by (simp add: removeAll_all_same)
    qed
  qed
  from l r i f show ?thesis
    by (simp add: quiet_def after_dispose_fields)
qed

lemma quiet_wired: "quiet s \<Longrightarrow> resizeObserver s = None \<Longrightarrow> wired s"
  by (simp add: quiet_def wired_def)

lemma wired_dispose:
  assumes "wired s" and "dispose s = Inr d"
  shows "quiet d"
  using assms by (auto simp: dispose_eq wired_after_dispose)

lemma wired_after_dispose': "wired s \<Longrightarrow> wired (after_dispose s)"
  by (rule quiet_wired) (simp_all add: wired_after_dispose after_dispose_fields)

lemma wired_emit: "wired (emit e s) = wired s"
  by (simp add: wired_def emit_fields)

lemma wired_update: "wired s \<Longrightarrow> wired (update cb s)"
  by (simp add: update_eq wired_emit wired_after_dispose')

lemma quiet_after_dispose: "quiet s \<Longrightarrow> quiet (after_dispose s)"
  by (cases "resizeObserver s"; cases "intersectionObserver s"; cases "frameId s")
     (simp_all add: quiet_def after_dispose_fields)

text \<open>The callback registers nothing: what it leaves was there before.\<close>

lemma update_pending_Nil: "raf_pending s = [] \<Longrightarrow> raf_pending (update cb s) = []"
  by (cases "frameId s") (simp_all add: update_eq after_dispose_fields emit_fields)

lemma update_io_Nil: "io_targets s = [] \<Longrightarrow> io_targets (update cb s) = []"
  by (cases "intersectionObserver s") (simp_all add: update_eq after_dispose_fields emit_fields)

lemma wired_flag: "wired (s\<lparr>initialUpdate := b\<rparr>) = wired s"
  by (simp add: wired_def)

lemma wired_ro_callback: "wired s \<Longrightarrow> wired (ro_callback cb s)"
  by (cases "initialUpdate s") (simp_all add: ro_callback_eq wired_flag wired_update)

lemma wired_io_finish:
  assumes "wired s" and "raf_pending s = []"
  shows "wired (io_finish e s)"
proof -
  have gone: "(case intersectionObserver s of
              None \<Rightarrow> io_targets s
            | Some k \<Rightarrow> filter (\<lambda>p. fst p \<noteq> k) (io_targets s)) = []"
  proof (cases "intersectionObserver s")
    case None
    with assms(1) have "\<forall>p \<in> set (io_targets s). False" by (simp add: wired_def)
    with None show ?thesis by (simp add: no_members_Nil)
  next
    case (Some k)
    with assms(1) have "\<forall>p \<in> set (io_targets s). fst p = k" by (simp add: wired_def)
    with Some show ?thesis by (simp add: filter_all_same)
  qed
  from assms gone show ?thesis
    unfolding wired_def io_finish_fields by simp
qed

lemma wired_io_callback:
  assumes "wired s" and "k \<in> fst ` set (io_targets s)" and "io_callback cb entries s = Inr s'"
  shows "wired s'"
proof (cases entries)
  case Nil
  with assms show ?thesis by (simp add: io_callback_Nil)
next
  case (Cons e es)
  let ?s1 = "if differs (prevRefRect s) (boundingClientRect e) then update cb s else s"
  from assms(2) have ne: "io_targets s \<noteq> []" by auto
  with assms(1) have pend: "raf_pending s = []" by (auto simp: wired_def)
  from assms(1) have w1: "wired ?s1" by (simp add: wired_update)
  from pend have p1: "raf_pending ?s1 = []" by (simp add: update_pending_Nil)
  from assms(3) Cons have "s' = io_finish e ?s1" by (simp add: io_callback_Cons)
  with w1 p1 show ?thesis by (simp add: wired_io_finish)
qed

lemma wired_poll_finish:
  assumes "wired s" and "raf_pending s = []" and "io_targets s = []"
  shows "wired (poll_finish r s)"
  using assms unfolding wired_def poll_finish_fields by simp

lemma wired_frame:
  assumes "wired s" and "i \<in> set (raf_pending s)"
  shows "wired (frameLoop cb (s\<lparr>raf_pending := removeAll i (raf_pending s)\<rparr>))"
proof -
  let ?s0 = "s\<lparr>raf_pending := removeAll i (raf_pending s)\<rparr>"
  from assms(2) have ne: "raf_pending s \<noteq> []" by auto
  with assms(1) have io: "io_targets s = []" by (simp add: wired_def)
  from assms(1) have fr: "\<forall>j \<in> set (raf_pending s). frameId s = Some j" by (simp add: wired_def)
  with assms(2) have "frameId s = Some i" by blast
  with fr have "\<forall>j \<in> set (raf_pending s). j = i" by auto
  then have gone: "removeAll i (raf_pending s) = []" by (rule removeAll_all_same)
  from assms(1) io gone have w0: "wired ?s0" by (simp add: wired_def)
  from gone have p0: "raf_pending ?s0 = []" by simp
  from io have i0: "io_targets ?s0 = []" by simp
  show ?thesis
  proof (cases "reference s")
    case (Element n)
    with assms(1) io gone show ?thesis by (simp add: frameLoop_Element wired_def)
  next
    case (VirtualElement c)
    let ?s1 = "emit GetBoundingClientRect ?s0"
    let ?s2 = "if differs (prevRefRect ?s0) (ref_rect ?s0) then update cb ?s1 else ?s1"
    from w0 have w1: "wired ?s1" by (simp add: wired_emit)
    from p0 have p1: "raf_pending ?s1 = []" by (simp add: emit_fields)
    from i0 have i1: "io_targets ?s1 = []" by (simp add: emit_fields)
    from w1 have w2: "wired ?s2" by (simp add: wired_update)
    from p1 have p2: "raf_pending ?s2 = []" by (simp add: update_pending_Nil)
    from i1 have i2: "io_targets ?s2 = []" by (simp add: update_io_Nil)
    from VirtualElement have "frameLoop cb ?s0 = poll_finish (ref_rect ?s0) ?s2"
      by (simp add: frameLoop_Virtual)
    with w2 p2 i2 show ?thesis by (simp add: wired_poll_finish)
  qed
qed

lemma wired_step:
  assumes "wired s" and "step cb e s = Inr s'"
  shows "wired s'"
proof (cases e)
  case (Intersection k entries)
  with assms show ?thesis by (auto simp: wired_io_callback split: if_splits)
next
  case (AnimationFrame i)
  with assms show ?thesis by (auto simp: wired_frame split: if_splits)
next
  case (LayoutShift r)
  with assms have "s' = s\<lparr>ref_rect := r\<rparr>" by simp
  with assms(1) show ?thesis by (simp add: wired_def)
next
  case Dispose
  with assms have "s' = after_dispose s" by (simp add: dispose_eq)
  with assms(1) show ?thesis by (simp add: wired_after_dispose')
next
  case (ScrollEvent t)
  with assms have "s' = update cb s \<or> s' = s" by (simp split: if_splits)
  with assms(1) show ?thesis by (auto simp: wired_update)
next
  case (ResizeEvent t)
  with assms have "s' = update cb s \<or> s' = s" by (simp split: if_splits)
  with assms(1) show ?thesis by (auto simp: wired_update)
next
  case (ResizeObservation ns)
  with assms have "s' = ro_callback cb s \<or> s' = s" by (simp split: if_splits)
  with assms(1) show ?thesis by (auto simp: wired_ro_callback)
qed

lemma wired_run: "wired s \<Longrightarrow> run cb es s = Inr s' \<Longrightarrow> wired s'"
proof (induction es arbitrary: s)
  case Nil
  then show ?case by simp
next
  case (Cons e es)
  obtain s1 where s1: "step cb e s = Inr s1" using step_total by blast
  with Cons.prems have "wired s1" and "run cb es s1 = Inr s'" by (simp_all add: wired_step)
  then show ?case by (rule Cons.IH)
qed

lemma quiet_step:
  assumes "quiet s" and "step cb e s = Inr s'"
  shows "quiet s' \<and> updates s' = updates s"
proof (cases e)
  case Dispose
  with assms have "s' = after_dispose s" by (simp add: dispose_eq)
  with assms(1) show ?thesis
    by (simp add: quiet_after_dispose updates_def after_dispose_fields)
qed (use assms in \<open>auto simp: quiet_def updates_def\<close>)

lemma quiet_run: "quiet s \<Longrightarrow> run cb es s = Inr s' \<Longrightarrow> updates s' = updates s"
proof (induction es arbitrary: s)
  case Nil
  then show ?case by simp
next
  case (Cons e es)
  obtain s1 where s1: "step cb e s = Inr s1" using step_total by blast
  with Cons.prems have q: "quiet s1 \<and> updates s1 = updates s" by (simp add: quiet_step)
  from s1 Cons.prems have "run cb es s1 = Inr s'" by simp
  with q Cons.IH [of s1] show ?case by simp
qed

text \<open>
  A disposal between two events silences the instance, whatever the callback
  did before.
\<close>

lemma disposal_between_events_silences:
  "\<exists>d s'. run cb (es1 @ [Dispose]) (autoUpdate env refEl floatEl cb options) = Inr d \<and>
          run cb es2 d = Inr s' \<and> updates s' = updates d"
proof -
  obtain s where s: "run cb es1 (autoUpdate env refEl floatEl cb options) = Inr s"
    using run_total by blast
  then have w: "wired s" using wired_autoUpdate wired_run by blast
  obtain d where d: "dispose s = Inr d" using dispose_total by blast
  with w have q: "quiet d" by (simp add: wired_dispose)
  obtain s' where s': "run cb es2 d = Inr s'" using run_total by blast
  with q have "updates s' = updates d" by (rule quiet_run)
  with s d s' show ?thesis by (simp add: run_append)
qed

section \<open>What later events leave alone\<close>

lemma readers_Nil [simp]:
  "overflow_queries [] = []" "listeners_added [] = []"
  "listeners_removed [] = []" "watched [] = []"
  by (simp_all add: overflow_queries_def listeners_added_def listeners_removed_def watched_def)

lemma readers_Cons [simp]:
  "overflow_queries (e # tr) = overflow_query e @ overflow_queries tr"
  "listeners_added (e # tr) = listener_added e @ listeners_added tr"
  "listeners_removed (e # tr) = listener_removed e @ listeners_removed tr"
  "watched (e # tr) = watcher_observed e @ watched tr"
  by (simp_all add: overflow_queries_def listeners_added_def listeners_removed_def watched_def)

lemma readers_append [simp]:
  "overflow_queries (tr @ tr') = overflow_queries tr @ overflow_queries tr'"
  "listeners_added (tr @ tr') = listeners_added tr @ listeners_added tr'"
  "listeners_removed (tr @ tr') = listeners_removed tr @ listeners_removed tr'"
  "watched (tr @ tr') = watched tr @ watched tr'"
  by (simp_all add: overflow_queries_def listeners_added_def listeners_removed_def watched_def)

lemma read_attach_trace [simp]:
  "overflow_queries (attach_trace as sc rs) = []"
  "watched (attach_trace as sc rs) = []"
  "listeners_removed (attach_trace as sc rs) = []"
  by (induction as) simp_all

lemma added_attach_trace:
  "listeners_added (attach_trace as sc rs) =
     concat (map (\<lambda>a. (if sc then [(a, Scroll)] else []) @ (if rs then [(a, Resize)] else [])) as)"
  by (induction as) simp_all

lemma read_detach_trace [simp]:
  "overflow_queries (detach_trace as sc rs) = []"
  "watched (detach_trace as sc rs) = []"
  "listeners_added (detach_trace as sc rs) = []"
  by (induction as) simp_all

lemma read_map_GetOverflowAncestors [simp]:
  "overflow_queries (map GetOverflowAncestors ns) = ns"
  "watched (map GetOverflowAncestors ns) = []"
  "listeners_added (map GetOverflowAncestors ns) = []"
  "listeners_removed (map GetOverflowAncestors ns) = []"
  by (induction ns) simp_all

lemma read_map_ROObserve [simp]:
  "overflow_queries (map ROObserve ns) = []"
  "watched (map ROObserve ns) = ns"
  "listeners_added (map ROObserve ns) = []"
  "listeners_removed (map ROObserve ns) = []"
  by (induction ns) simp_all

lemma read_dispose_trace [simp]:
  "overflow_queries (dispose_trace s) = []"
  "watched (dispose_trace s) = []"
  "listeners_added (dispose_trace s) = []"
  by (cases "resizeObserver s"; cases "intersectionObserver s"; cases "frameId s";
      simp add: dispose_trace_def)+

lemma removed_dispose_trace: "ancestors s = [] \<Longrightarrow> listeners_removed (dispose_trace s) = []"
  by (cases "resizeObserver s"; cases "intersectionObserver s"; cases "frameId s")
     (simp_all add: dispose_trace_def)

text \<open>After setup, nothing queries ancestors, adds a listener or observes a node.\<close>

lemma update_keeps_setup_calls:
  "overflow_queries (trace (update cb s)) = overflow_queries (trace s)"
  "listeners_added (trace (update cb s)) = listeners_added (trace s)"
  "watched (trace (update cb s)) = watched (trace s)"
  by (simp_all add: update_trace)

lemma step_keeps_setup_calls:
  assumes "step cb e s = Inr s'"
  shows "overflow_queries (trace s') = overflow_queries (trace s) \<and>
         listeners_added (trace s') = listeners_added (trace s) \<and>
         watched (trace s') = watched (trace s) \<and>
         ancestors s' = ancestors s"
proof (cases e)
  case (ScrollEvent t)
  with assms show ?thesis by (auto simp: update_keeps_setup_calls update_keeps)
next
  case (ResizeEvent t)
  with assms show ?thesis by (auto simp: update_keeps_setup_calls update_keeps)
next
  case (ResizeObservation ns)
  with assms show ?thesis
    by (cases "initialUpdate s")
       (auto simp: ro_callback_eq update_keeps_setup_calls update_keeps)
next
  case (Intersection k entries)
  with assms show ?thesis
    by (cases entries;
        cases "intersectionObserver
                 (if differs (prevRefRect s) (boundingClientRect (hd entries))
                  then update cb s else s)")
       (auto simp: io_callback_Nil io_callback_Cons io_finish_fields
          update_keeps_setup_calls update_keeps split: if_splits)
next
  case (AnimationFrame i)
  with assms show ?thesis
    by (cases "reference s")
       (auto simp: frameLoop_Element frameLoop_Virtual poll_finish_fields emit_fields
          update_keeps_setup_calls update_keeps split: if_splits)
next
  case (LayoutShift r)
  with assms show ?thesis by auto
next
  case Dispose
  with assms have "s' = after_dispose s" by (simp add: dispose_eq)
  then show ?thesis by (simp add: after_dispose_fields)
qed

lemma run_keeps_setup_calls:
  "run cb es s = Inr s' \<Longrightarrow>
     overflow_queries (trace s') = overflow_queries (trace s) \<and>
     listeners_added (trace s') = listeners_added (trace s) \<and>
     watched (trace s') = watched (trace s) \<and>
     ancestors s' = ancestors s"
proof (induction es arbitrary: s)
  case Nil
  then show ?case by simp
next
  case (Cons e es)
  obtain s1 where s1: "step cb e s = Inr s1" using step_total by blast
  with Cons.prems have "run cb es s1 = Inr s'" by simp
  with Cons.IH [of s1] step_keeps_setup_calls [OF s1] show ?case by simp
qed

text \<open>Without ancestors the listeners stay as they are and none is removed.\<close>

lemma after_dispose_without_ancestors:
  assumes "ancestors s = []"
  shows "listeners (after_dispose s) = listeners s \<and>
         listeners_removed (trace (after_dispose s)) = listeners_removed (trace s)"
  using assms by (simp add: after_dispose_fields removed_dispose_trace)

lemma update_without_ancestors:
  assumes "ancestors s = []"
  shows "listeners (update cb s) = listeners s \<and>
         listeners_removed (trace (update cb s)) = listeners_removed (trace s)"
  using assms by (simp add: update_eq after_dispose_fields emit_fields removed_dispose_trace)

lemma step_without_ancestors:
  assumes "ancestors s = []" and "step cb e s = Inr s'"
  shows "listeners s' = listeners s \<and> listeners_removed (trace s') = listeners_removed (trace s)"
proof (cases e)
  case (ScrollEvent t)
  with assms show ?thesis by (auto simp: update_without_ancestors)
next
  case (ResizeEvent t)
  with assms show ?thesis by (auto simp: update_without_ancestors)
next
  case (ResizeObservation ns)
  with assms show ?thesis
    by (cases "initialUpdate s") (auto simp: ro_callback_eq update_without_ancestors)
next
  case (Intersection k entries)
  with assms show ?thesis
    by (cases entries;
        cases "intersectionObserver
                 (if differs (prevRefRect s) (boundingClientRect (hd entries))
                  then update cb s else s)")
       (auto simp: io_callback_Nil io_callback_Cons io_finish_fields
          update_without_ancestors split: if_splits)
next
  case (AnimationFrame i)
  let ?s0 = "emit GetBoundingClientRect (s\<lparr>raf_pending := removeAll i (raf_pending s)\<rparr>)"
  from assms(1) have a0: "ancestors ?s0 = []" by (simp add: emit_fields)
  from AnimationFrame assms update_without_ancestors [OF a0, of cb] show ?thesis
    by (cases "reference s")
       (auto simp: frameLoop_Element frameLoop_Virtual poll_finish_fields emit_fields
          split: if_splits)
next
  case (LayoutShift r)
  with assms show ?thesis by auto
next
  case Dispose
  with assms have "s' = after_dispose s" by (simp add: dispose_eq)
  with assms(1) show ?thesis by (simp add: after_dispose_without_ancestors)
qed

lemma run_without_ancestors:
  "ancestors s = [] \<Longrightarrow> run cb es s = Inr s' \<Longrightarrow>
     listeners s' = listeners s \<and> listeners_removed (trace s') = listeners_removed (trace s)"
proof (induction es arbitrary: s)
  case Nil
  then show ?case by simp
next
  case (Cons e es)
  obtain s1 where s1: "step cb e s = Inr s1" using step_total by blast
  with Cons.prems have r: "run cb es s1 = Inr s'" by simp
  from step_keeps_setup_calls [OF s1] Cons.prems(1) have a: "ancestors s1 = []" by simp
  from Cons.IH [OF a r] step_without_ancestors [OF Cons.prems(1) s1] show ?case by simp
qed

lemma not_Update_attach_trace [simp]: "Update \<notin> set (attach_trace as sc rs)"
  by (induction as) simp_all

lemma not_sample_attach_trace [simp]: "GetBoundingClientRect \<notin> set (attach_trace as sc rs)"
  by (induction as) simp_all

lemma filter_scroll_off:
  "filter (\<lambda>p. snd p = Scroll)
     (concat (map (\<lambda>a. (if False then [(a, Scroll)] else []) @ (if rs then [(a, Resize)] else [])) as)) = []"
  by (induction as) simp_all

lemma after_setup_updates: "updates (after_setup env refEl floatEl sc rs er af) = 1"
  by (cases refEl) (simp_all add: updates_def after_setup_fields poll_start_def)

lemma after_setup_flag: "initialUpdate (after_setup env refEl floatEl sc rs er af)"
  by (simp add: after_setup_fields)

section \<open>The instances that are run, and counting firings\<close>

lemma demo_virtual_state:
  "autoUpdate demo_env (VirtualElement None) 2 cb polling_options =
     \<lparr>reference = VirtualElement None, floating = 2, ancestorScroll = False,
      ancestorResize = True, ancestors = [20, 100], resizeObserver = Some (),
      initialUpdate = True, frameId = Some 1, intersectionObserver = None,
      prevRefRect = Some (demo_rect 0),
      listeners = [(20, Resize), (100, Resize)], ro_targets = [2],
      io_targets = [], io_count = 0, raf_pending = [1], raf_count = 1,
      ref_rect = demo_rect 0,
      trace =
        [GetOverflowAncestors 2, AddEventListener 20 Resize,
         AddEventListener 100 Resize, NewResizeObserver, ROObserve 2,
         GetBoundingClientRect, RequestAnimationFrame 1, Update],
      returned = True\<rparr>"
  by (simp add: autoUpdate_eq after_setup_def poll_start_def demo_env_def
        demo_overflow_def polling_options_def discovery_nodes_def watch_nodes_def)

lemma demo_element_state:
  "autoUpdate demo_env (Element 1) 2 cb polling_options =
     \<lparr>reference = Element 1, floating = 2, ancestorScroll = False,
      ancestorResize = True, ancestors = [10, 100, 20, 100],
      resizeObserver = Some (), initialUpdate = True, frameId = None,
      intersectionObserver = Some 0, prevRefRect = None,
      listeners = [(10, Resize), (100, Resize), (20, Resize)],
      ro_targets = [2], io_targets = [(0, 1)], io_count = 1, raf_pending = [],
      raf_count = 0, ref_rect = demo_rect 0,
      trace =
        [GetOverflowAncestors 1, GetOverflowAncestors 2,
         AddEventListener 10 Resize, AddEventListener 100 Resize,
         AddEventListener 20 Resize, AddEventListener 100 Resize,
         NewResizeObserver, ROObserve 2, NewIntersectionObserver 0,
         IOObserve 0 1, Update],
      returned = True\<rparr>"
  by (simp add: autoUpdate_eq after_setup_def poll_start_def demo_env_def
        demo_overflow_def polling_options_def discovery_nodes_def watch_nodes_def)

lemmas demo_virtual_eq = demo_virtual_state [of plain_update, folded demo_virtual_def]
lemmas demo_element_eq = demo_element_state [of plain_update, folded demo_element_def]
lemmas demo_virtual_disposing_eq =
  demo_virtual_state [of disposing_update, folded demo_virtual_disposing_def]
lemmas demo_element_disposing_eq =
  demo_element_state [of disposing_update, folded demo_element_disposing_def]

lemma update_plain: "update plain_update s = emit Update s"
  by (simp add: update_eq plain_update_def)

lemma ro_callback_updates:
  "updates (ro_callback cb s) = updates s + (if initialUpdate s then 0 else 1)"
  by (cases "initialUpdate s") (simp_all add: ro_callback_eq updates_def update_trace)

lemma ro_callback_flag: "\<not> initialUpdate (ro_callback cb s)"
  by (simp add: ro_callback_eq)

text \<open>
  With a callback that never calls the returned function, firings for nodes
  observed after setup are all deliverable.
\<close>

lemma deliverable_without_disposal:
  assumes "\<And>t. \<not> cb t"
    and "\<forall>ns \<in> set firings. ns \<noteq> [] \<and> set ns \<subseteq> set (ro_targets s)"
  shows "deliverable cb firings s"
  using assms(2)
proof (induction firings arbitrary: s)
  case Nil
  show ?case by simp
next
  case (Cons ns firings)
  have keep: "ro_targets (ro_callback cb s) = ro_targets s"
    by (simp add: ro_callback_eq update_eq emit_fields assms(1))
  from Cons.prems keep have
    "\<forall>ns \<in> set firings. ns \<noteq> [] \<and> set ns \<subseteq> set (ro_targets (ro_callback cb s))"
    by simp
  from Cons.IH [OF this] Cons.prems show ?case by simp
qed

lemma firings_count:
  assumes "deliverable cb firings s"
  shows "\<exists>s'. run cb (map ResizeObservation firings) s = Inr s' \<and>
          updates s' =
            updates s + (if initialUpdate s then length firings - 1 else length firings)"
  using assms
proof (induction firings arbitrary: s)
  case Nil
  show ?case by simp
next
  case (Cons ns firings)
  let ?s1 = "ro_callback cb s"
  from Cons.prems have enabled: "ns \<noteq> [] \<and> set ns \<subseteq> set (ro_targets s)"
    and rest: "deliverable cb firings ?s1" by simp_all
  from Cons.IH [OF rest] obtain s' where
    r: "run cb (map ResizeObservation firings) ?s1 = Inr s'" and
    u: "updates s' = updates ?s1 + (if initialUpdate ?s1 then length firings - 1 else length firings)"
    by blast
  from enabled r have "run cb (map ResizeObservation (ns # firings)) s = Inr s'" by simp
  moreover from u have
    "updates s' = updates s +
       (if initialUpdate s then length (ns # firings) - 1 else length (ns # firings))"
    by (simp add: ro_callback_updates ro_callback_flag)
  ultimately show ?case by blast
qed

text \<open>Until the trigger delivers a sample, an element's snapshot stays unset.\<close>

lemma step_keeps_unsampled:
  assumes "reference s = Element n" and "prevRefRect s = None"
    and "\<not> delivers_sample ev" and "step cb ev s = Inr s'"
  shows "reference s' = Element n \<and> prevRefRect s' = None"
proof (cases ev)
  case (ScrollEvent t)
  with assms show ?thesis by (auto simp: update_keeps)
next
  case (ResizeEvent t)
  with assms show ?thesis by (auto simp: update_keeps)
next
  case (ResizeObservation ns)
  with assms show ?thesis
    by (cases "initialUpdate s") (auto simp: ro_callback_eq update_keeps)
next
  case (Intersection k entries)
  with assms show ?thesis by (cases entries) (auto simp: io_callback_Nil)
next
  case (AnimationFrame i)
  with assms show ?thesis by (auto simp: frameLoop_Element split: if_splits)
next
  case (LayoutShift r)
  with assms show ?thesis by auto
next
  case Dispose
  with assms have "s' = after_dispose s" by (simp add: dispose_eq)
  with assms show ?thesis by (simp add: after_dispose_fields)
qed

lemma run_keeps_unsampled:
  "reference s = Element n \<Longrightarrow> prevRefRect s = None \<Longrightarrow>
   \<forall>ev \<in> set es. \<not> delivers_sample ev \<Longrightarrow> run cb es s = Inr s' \<Longrightarrow>
     reference s' = Element n \<and> prevRefRect s' = None"
proof (induction es arbitrary: s)
  case Nil
  then show ?case by simp
next
  case (Cons ev es)
  obtain s1 where s1: "step cb ev s = Inr s1" using step_total by blast
  from Cons.prems(3) have nd: "\<not> delivers_sample ev" by simp
  from step_keeps_unsampled [OF Cons.prems(1,2) nd s1]
  have k: "reference s1 = Element n" "prevRefRect s1 = None" by simp_all
  from Cons.prems(3) have rest: "\<forall>ev \<in> set es. \<not> delivers_sample ev" by simp
  from s1 Cons.prems(4) have r: "run cb es s1 = Inr s'" by simp
  from Cons.IH [OF k rest r] show ?case .
qed

lemma unguarded_call_throws: "call_method None m s = Inl TypeError"
  by (simp add: call_method_def)

lemmas evaluate =
  frameLoop_def io_callback_def ro_callback_def update_def call_disposer_def dispose_def
  emit_def getOverflowAncestors_def ro_observe_def ro_disconnect_def
  io_observe_def io_disconnect_def getBoundingClientRect_def requestAnimationFrame_def
  cancelAnimationFrame_def removeEventListener_def strict_neq_def Let_def
  demo_rect_def nan_rect_def demo_entry_def plain_update_def disposing_update_def updates_def

section \<open>The properties\<close>

text \<open>
  C1 fails on the code when \<^verbatim>\<open>update\<close> itself calls the returned function while
  the poller is running it. Both branches of \<^verbatim>\<open>frameLoop\<close> call \<^verbatim>\<open>update\<close>
  before they request the next frame (lines 113-117 and 134-138): the returned
  function, called inside \<^verbatim>\<open>update\<close>, cancels the handle of the frame that is
  running, and the request made after it is never cancelled. Below, on a virtual
  reference, the second \<^verbatim>\<open>update\<close> disposes (listeners removed, observer
  disconnected, frame 1 cancelled), frame 2 is requested and left pending, and
  when it runs \<^verbatim>\<open>update\<close> is called a third time. On an element the count of
  \<^verbatim>\<open>update\<close> calls goes from 2 to 3 in the same way, through a new trigger.
  A disposal between two events does silence the instance (lemma
  \<open>disposal_between_events_silences\<close>).
\<close>

theorem disposal_inside_update_leaves_poller_running:
  "map_sum id raf_pending
     (run disposing_update [LayoutShift (demo_rect 5), AnimationFrame 1] demo_virtual_disposing) =
     Inr [2] \<and>
   map_sum id trace
     (run disposing_update
        [LayoutShift (demo_rect 5), AnimationFrame 1, LayoutShift (demo_rect 9), AnimationFrame 2]
        demo_virtual_disposing) =
     Inr [GetOverflowAncestors 2, AddEventListener 20 Resize, AddEventListener 100 Resize,
          NewResizeObserver, ROObserve 2, GetBoundingClientRect, RequestAnimationFrame 1, Update,
          GetBoundingClientRect, Update,
          RemoveEventListener 20 Resize, RemoveEventListener 100 Resize, RODisconnect,
          CancelAnimationFrame 1, RequestAnimationFrame 2,
          GetBoundingClientRect, Update,
          RemoveEventListener 20 Resize, RemoveEventListener 100 Resize,
          CancelAnimationFrame 2, RequestAnimationFrame 3] \<and>
   map_sum id updates
     (run disposing_update
        [Intersection 0 [demo_entry 0], AnimationFrame 1, Intersection 1 [demo_entry 5]]
        demo_element_disposing) = Inr 2 \<and>
   map_sum id updates
     (run disposing_update
        [Intersection 0 [demo_entry 0], AnimationFrame 1, Intersection 1 [demo_entry 5],
         AnimationFrame 2, Intersection 2 [demo_entry 9]]
        demo_element_disposing) = Inr 3"
  by (simp add: demo_virtual_disposing_eq demo_element_disposing_eq evaluate)

text \<open>
  C2. For every reference, floating element, callback and option record, setup
  calls \<^verbatim>\<open>update\<close> exactly once before it returns.
\<close>

theorem initial_update_once: "updates (autoUpdate env refEl floatEl cb options) = 1"
  by (simp add: autoUpdate_eq after_setup_updates)

text \<open>
  C3, as stated, fails for rectangles with a \<^verbatim>\<open>NaN\<close> field, which a virtual
  reference can return: \<^verbatim>\<open>NaN !== NaN\<close> holds, so a rectangle identical to the
  snapshot calls \<^verbatim>\<open>update\<close>. Below the snapshot and the rectangle are the same
  and \<^verbatim>\<open>update\<close> is called; over three frames on the same rectangle it is
  called each time.
\<close>

theorem identical_nan_rectangles_trigger_update:
  "updates demo_virtual = 1 \<and>
   updates (frameLoop plain_update
              (demo_virtual\<lparr>ref_rect := nan_rect, prevRefRect := Some nan_rect\<rparr>)) = 2 \<and>
   map_sum id updates
     (run plain_update [LayoutShift nan_rect, AnimationFrame 1, AnimationFrame 2, AnimationFrame 3]
        demo_virtual) = Inr 4"
  by (simp add: demo_virtual_eq evaluate)

text \<open>
  C3, amended. An iteration of the poller that samples a rectangle calls
  \<^verbatim>\<open>update\<close> once if a previous snapshot exists and one of x, y, width, height
  of the new rectangle is \<^verbatim>\<open>!==\<close> to the snapshot's, and not at all otherwise;
  the new rectangle becomes the snapshot. This holds for the callback of the
  intersection trigger, given the entry it delivers, and for \<^verbatim>\<open>frameLoop\<close> on a
  virtual reference, which reads the rectangle itself. The first sample calls
  no \<^verbatim>\<open>update\<close>. A rectangle identical to the snapshot calls \<^verbatim>\<open>update\<close>
  exactly when one of its four fields is \<^verbatim>\<open>NaN\<close>: identical rectangles without
  \<^verbatim>\<open>NaN\<close> call none. A trigger callback without an entry samples nothing and
  changes nothing.
\<close>

theorem poller_updates_iff_strictly_unequal:
  "(\<exists>s'. io_callback cb (e # es) s = Inr s' \<and>
          prevRefRect s' = Some (boundingClientRect e) \<and>
          updates s' = updates s +
            (if \<exists>prev. prevRefRect s = Some prev \<and>
                  (strict_neq (rect_x (boundingClientRect e)) (rect_x prev) \<or>
                   strict_neq (rect_y (boundingClientRect e)) (rect_y prev) \<or>
                   strict_neq (rect_width (boundingClientRect e)) (rect_width prev) \<or>
                   strict_neq (rect_height (boundingClientRect e)) (rect_height prev))
             then 1 else 0)) \<and>
   io_callback cb [] s = Inr s \<and>
   prevRefRect (frameLoop cb (s\<lparr>reference := VirtualElement c\<rparr>)) = Some (ref_rect s) \<and>
   updates (frameLoop cb (s\<lparr>reference := VirtualElement c\<rparr>)) = updates s +
     (if \<exists>prev. prevRefRect s = Some prev \<and>
           (strict_neq (rect_x (ref_rect s)) (rect_x prev) \<or>
            strict_neq (rect_y (ref_rect s)) (rect_y prev) \<or>
            strict_neq (rect_width (ref_rect s)) (rect_width prev) \<or>
            strict_neq (rect_height (ref_rect s)) (rect_height prev))
      then 1 else 0) \<and>
   updates (frameLoop cb (s\<lparr>prevRefRect := None, reference := VirtualElement c\<rparr>)) = updates s \<and>
   updates (frameLoop cb (s\<lparr>prevRefRect := Some (ref_rect s), reference := VirtualElement c\<rparr>)) =
     updates s + (if has_nan (ref_rect s) then 1 else 0) \<and>
   (\<exists>s'. io_callback cb (e # es) (s\<lparr>prevRefRect := None\<rparr>) = Inr s' \<and> updates s' = updates s) \<and>
   (\<exists>s'. io_callback cb (e # es) (s\<lparr>prevRefRect := Some (boundingClientRect e)\<rparr>) = Inr s' \<and>
         updates s' = updates s + (if has_nan (boundingClientRect e) then 1 else 0))"
proof -
  have count_io: "updates (io_finish e' t) = updates t" for e' t
    by (cases "intersectionObserver t") (simp_all add: updates_def io_finish_fields)
  have count_poll: "updates (poll_finish r t) = updates t" for r t
    by (simp add: updates_def poll_finish_fields)
  have count_emit: "updates (emit GetBoundingClientRect t) = updates t" for t
    by (simp add: updates_def emit_fields)
  have count_ref: "updates (t\<lparr>reference := r\<rparr>) = updates t" for r t
    by (simp add: updates_def)
  have io_any: "\<exists>s'. io_callback cb (e # es) t = Inr s' \<and>
          prevRefRect s' = Some (boundingClientRect e) \<and>
          updates s' = updates t +
            (if differs (prevRefRect t) (boundingClientRect e) then 1 else 0)" for t
    by (simp add: io_callback_Cons io_finish_fields count_io update_updates)
  have virt_any: "prevRefRect (frameLoop cb (t\<lparr>reference := VirtualElement c\<rparr>)) =
          Some (ref_rect t) \<and>
        updates (frameLoop cb (t\<lparr>reference := VirtualElement c\<rparr>)) =
          updates t + (if differs (prevRefRect t) (ref_rect t) then 1 else 0)" for t
    by (simp add: frameLoop_Virtual poll_finish_fields count_poll count_emit update_updates
          count_ref)
  have d: "differs p r =
      (\<exists>prev. p = Some prev \<and>
         (strict_neq (rect_x r) (rect_x prev) \<or>
          strict_neq (rect_y r) (rect_y prev) \<or>
          strict_neq (rect_width r) (rect_width prev) \<or>
          strict_neq (rect_height r) (rect_height prev)))" for p r
    by (cases p) (simp_all add: differs_def)
  have d_same: "differs (Some r) r = has_nan r" for r
    by (auto simp: differs_def has_nan_def strict_neq_def)
  have d_none: "differs None r = False" for r
    by (simp add: differs_def)
  have c1: "\<exists>s'. io_callback cb (e # es) s = Inr s' \<and>
          prevRefRect s' = Some (boundingClientRect e) \<and>
          updates s' = updates s +
            (if \<exists>prev. prevRefRect s = Some prev \<and>
                  (strict_neq (rect_x (boundingClientRect e)) (rect_x prev) \<or>
                   strict_neq (rect_y (boundingClientRect e)) (rect_y prev) \<or>
                   strict_neq (rect_width (boundingClientRect e)) (rect_width prev) \<or>
                   strict_neq (rect_height (boundingClientRect e)) (rect_height prev))
             then 1 else 0)"
    using io_any [of s] unfolding d .
  have c3: "prevRefRect (frameLoop cb (s\<lparr>reference := VirtualElement c\<rparr>)) = Some (ref_rect s)"
    using virt_any [of s] by simp
  have c4: "updates (frameLoop cb (s\<lparr>reference := VirtualElement c\<rparr>)) = updates s +
     (if \<exists>prev. prevRefRect s = Some prev \<and>
           (strict_neq (rect_x (ref_rect s)) (rect_x prev) \<or>
            strict_neq (rect_y (ref_rect s)) (rect_y prev) \<or>
            strict_neq (rect_width (ref_rect s)) (rect_width prev) \<or>
            strict_neq (rect_height (ref_rect s)) (rect_height prev))
      then 1 else 0)"
    using virt_any [of s] unfolding d by simp
  have c5: "updates (frameLoop cb (s\<lparr>prevRefRect := None, reference := VirtualElement c\<rparr>)) =
      updates s"
    using virt_any [of "s\<lparr>prevRefRect := None\<rparr>"] by (simp add: d_none updates_def)
  have c6: "updates (frameLoop cb (s\<lparr>prevRefRect := Some (ref_rect s),
      reference := VirtualElement c\<rparr>)) = updates s + (if has_nan (ref_rect s) then 1 else 0)"
    using virt_any [of "s\<lparr>prevRefRect := Some (ref_rect s)\<rparr>"]
    by (simp add: d_same updates_def)
  have c7: "\<exists>s'. io_callback cb (e # es) (s\<lparr>prevRefRect := None\<rparr>) = Inr s' \<and>
      updates s' = updates s"
    using io_any [of "s\<lparr>prevRefRect := None\<rparr>"] by (auto simp: d_none updates_def)
  have c8: "\<exists>s'. io_callback cb (e # es) (s\<lparr>prevRefRect := Some (boundingClientRect e)\<rparr>) =
      Inr s' \<and> updates s' = updates s + (if has_nan (boundingClientRect e) then 1 else 0)"
    using io_any [of "s\<lparr>prevRefRect := Some (boundingClientRect e)\<rparr>"]
    by (auto simp: d_same updates_def)
  from c1 io_callback_Nil c3 c4 c5 c6 c7 c8 show ?thesis by blast
qed

theorem poller_updates_iff_strictly_unequal_witness:
  "updates (frameLoop plain_update
     (demo_virtual\<lparr>ref_rect := demo_rect 5, reference := VirtualElement None\<rparr>)) = 2 \<and>
   updates (frameLoop plain_update (demo_virtual\<lparr>reference := VirtualElement None\<rparr>)) = 1 \<and>
   updates (frameLoop plain_update
     (demo_virtual\<lparr>prevRefRect := None, reference := VirtualElement None\<rparr>)) = 1"
  using poller_updates_iff_strictly_unequal
      [of plain_update "demo_entry 0" "[]" "demo_virtual\<lparr>ref_rect := demo_rect 5\<rparr>" None]
    poller_updates_iff_strictly_unequal [of plain_update "demo_entry 0" "[]" demo_virtual None]
    poller_updates_iff_strictly_unequal
      [of plain_update "demo_entry 0" "[]" "demo_virtual\<lparr>prevRefRect := None\<rparr>" None]
  by (simp add: demo_virtual_eq demo_rect_def updates_def strict_neq_def)

text \<open>
  C4. With frame polling enabled, whatever the other three options say, whatever
  the callback does and whatever happens afterwards, \<^verbatim>\<open>addEventListener\<close> is
  never called for a scroll event, and the only node ever handed to the
  ResizeObserver is the floating element (no node at all when element-resize
  tracking is off).
\<close>

theorem polling_supersedes_scroll_and_reference_watch:
  assumes "or_default (o_animationFrame options) False"
  shows "\<exists>s. run cb es (autoUpdate env refEl floatEl cb options) = Inr s \<and>
             filter (\<lambda>p. snd p = Scroll) (listeners_added (trace s)) = [] \<and>
             watched (trace s) =
               (if or_default (o_elementResize options) True then [floatEl] else [])"
proof -
  obtain s where s: "run cb es (autoUpdate env refEl floatEl cb options) = Inr s"
    using run_total by blast
  have start:
    "filter (\<lambda>p. snd p = Scroll)
       (listeners_added (trace (autoUpdate env refEl floatEl cb options))) = [] \<and>
     watched (trace (autoUpdate env refEl floatEl cb options)) =
       (if or_default (o_elementResize options) True then [floatEl] else [])"
    using assms unfolding autoUpdate_eq after_setup_fields
    by (cases refEl)
       (simp_all add: added_attach_trace filter_scroll_off watch_nodes_def poll_start_def)
  from run_keeps_setup_calls [OF s] start s show ?thesis by simp
qed

theorem polling_supersedes_scroll_and_reference_watch_witness:
  "or_default (o_animationFrame polling_options) False \<and>
   (\<exists>s. run plain_update [ScrollEvent 100, Dispose]
          (autoUpdate demo_env (Element 1) 2 plain_update polling_options) = Inr s \<and>
        filter (\<lambda>p. snd p = Scroll) (listeners_added (trace s)) = [] \<and>
        watched (trace s) = [2])"
proof -
  have h: "or_default (o_animationFrame polling_options) False"
    by (simp add: polling_options_def)
  from polling_supersedes_scroll_and_reference_watch
         [OF h, of plain_update "[ScrollEvent 100, Dispose]" demo_env "Element 1" 2] h
  show ?thesis by (simp add: polling_options_def)
qed

text \<open>
  C5. Every iteration of the poller ends by requesting the next animation frame,
  whether or not the comparison found a change: in every state, the trigger's
  callback for the entry it delivers, and \<^verbatim>\<open>frameLoop\<close> on a virtual reference,
  call \<^verbatim>\<open>requestAnimationFrame\<close>, keep the new handle in \<^verbatim>\<open>frameId\<close> and leave
  that frame pending.
\<close>

theorem poller_reschedules_after_sample:
  "(\<exists>s'. io_callback cb (e # es) s = Inr s' \<and>
          frameId s' = Some (Suc (raf_count s)) \<and>
          last (raf_pending s') = Suc (raf_count s) \<and>
          Suc (raf_count s) \<in> set (raf_pending s') \<and>
          RequestAnimationFrame (Suc (raf_count s)) \<in> set (trace s')) \<and>
   frameId (frameLoop cb (s\<lparr>reference := VirtualElement c\<rparr>)) = Some (Suc (raf_count s)) \<and>
   last (raf_pending (frameLoop cb (s\<lparr>reference := VirtualElement c\<rparr>))) = Suc (raf_count s) \<and>
   Suc (raf_count s) \<in> set (raf_pending (frameLoop cb (s\<lparr>reference := VirtualElement c\<rparr>))) \<and>
   RequestAnimationFrame (Suc (raf_count s))
     \<in> set (trace (frameLoop cb (s\<lparr>reference := VirtualElement c\<rparr>)))"
proof -
  have io: "\<exists>s'. io_callback cb (e # es) s = Inr s' \<and>
          frameId s' = Some (Suc (raf_count s)) \<and>
          last (raf_pending s') = Suc (raf_count s) \<and>
          Suc (raf_count s) \<in> set (raf_pending s') \<and>
          RequestAnimationFrame (Suc (raf_count s)) \<in> set (trace s')"
    by (simp add: io_callback_Cons io_finish_fields update_keeps)
  have virt: "frameId (frameLoop cb (s\<lparr>reference := VirtualElement c\<rparr>)) =
        Some (Suc (raf_count s)) \<and>
      last (raf_pending (frameLoop cb (s\<lparr>reference := VirtualElement c\<rparr>))) =
        Suc (raf_count s) \<and>
      Suc (raf_count s) \<in> set (raf_pending (frameLoop cb (s\<lparr>reference := VirtualElement c\<rparr>))) \<and>
      RequestAnimationFrame (Suc (raf_count s))
        \<in> set (trace (frameLoop cb (s\<lparr>reference := VirtualElement c\<rparr>)))"
    by (simp add: frameLoop_Virtual poll_finish_fields update_keeps emit_fields)
  from io virt show ?thesis by blast
qed

theorem poller_reschedules_after_sample_witness:
  "frameId (frameLoop plain_update (demo_virtual\<lparr>reference := VirtualElement None\<rparr>)) = Some 2 \<and>
   frameId (frameLoop plain_update
     (demo_virtual\<lparr>ref_rect := demo_rect 5, reference := VirtualElement None\<rparr>)) = Some 2 \<and>
   frameId (frameLoop disposing_update
     (demo_virtual_disposing\<lparr>ref_rect := demo_rect 5, reference := VirtualElement None\<rparr>)) =
     Some 2"
  using poller_reschedules_after_sample [of plain_update "demo_entry 0" "[]" demo_virtual None]
    poller_reschedules_after_sample
      [of plain_update "demo_entry 0" "[]" "demo_virtual\<lparr>ref_rect := demo_rect 5\<rparr>" None]
    poller_reschedules_after_sample
      [of disposing_update "demo_entry 0" "[]"
          "demo_virtual_disposing\<lparr>ref_rect := demo_rect 5\<rparr>" None]
  by (simp add: demo_virtual_eq demo_virtual_disposing_eq)

text \<open>
  C6, as stated, fails for a virtual reference: setup runs \<^verbatim>\<open>frameLoop\<close> (lines
  93-95) before it calls \<^verbatim>\<open>update\<close> (line 142), and on a virtual reference
  \<^verbatim>\<open>frameLoop\<close> reads the rectangle at once. In the trace of setup the read comes
  before the call of \<^verbatim>\<open>update\<close>.
\<close>

theorem virtual_poller_samples_before_initial_update:
  "trace demo_virtual =
     [GetOverflowAncestors 2, AddEventListener 20 Resize, AddEventListener 100 Resize,
      NewResizeObserver, ROObserve 2, GetBoundingClientRect, RequestAnimationFrame 1, Update] \<and>
   GetBoundingClientRect \<in> set (takeWhile (\<lambda>e. e \<noteq> Update) (trace demo_virtual)) \<and>
   prevRefRect demo_virtual = Some (demo_rect 0)"
  by (simp add: demo_virtual_eq)

text \<open>
  C6, amended. With frame polling enabled the poller is started before the
  initial call of \<^verbatim>\<open>update\<close>, which is the last thing setup does and the only
  \<^verbatim>\<open>update\<close> of setup. For a virtual reference the first iteration runs inside
  setup: it reads the rectangle, keeps it as the snapshot and requests the first
  frame, all before the initial \<^verbatim>\<open>update\<close>, and calls no \<^verbatim>\<open>update\<close> itself.
  For an element setup only installs the trigger before the initial \<^verbatim>\<open>update\<close>:
  it reads no rectangle and leaves the snapshot unset. The snapshot stays unset
  through every later event that delivers no sample (\<open>es0\<close>), so the trigger's
  callback that delivers the first sample comes after the initial \<^verbatim>\<open>update\<close>,
  and it calls no \<^verbatim>\<open>update\<close> either.
\<close>

theorem poller_started_before_initial_update:
  assumes "or_default (o_animationFrame options) False"
    and "\<forall>ev \<in> set es0. \<not> delivers_sample ev"
  shows "(\<exists>tr. trace (autoUpdate env (VirtualElement c) floatEl cb options) =
                 tr @ [GetBoundingClientRect, RequestAnimationFrame (Suc (env_raf_count env)), Update] \<and>
               Update \<notin> set tr) \<and>
         prevRefRect (autoUpdate env (VirtualElement c) floatEl cb options) = Some (env_rect env) \<and>
         (\<exists>tr. trace (autoUpdate env (Element n) floatEl cb options) =
                 tr @ [NewIntersectionObserver (env_io_count env),
                       IOObserve (env_io_count env) n, Update] \<and>
               Update \<notin> set tr \<and> GetBoundingClientRect \<notin> set tr) \<and>
         prevRefRect (autoUpdate env (Element n) floatEl cb options) = None \<and>
         (\<exists>s s'. run cb es0 (autoUpdate env (Element n) floatEl cb options) = Inr s \<and>
                 prevRefRect s = None \<and>
                 io_callback cb (e # es) s = Inr s' \<and>
                 updates s' = updates s \<and>
                 prevRefRect s' = Some (boundingClientRect e))"
proof -
  have v: "\<exists>tr. trace (autoUpdate env (VirtualElement c) floatEl cb options) =
                 tr @ [GetBoundingClientRect, RequestAnimationFrame (Suc (env_raf_count env)), Update] \<and>
               Update \<notin> set tr"
    using assms(1) unfolding autoUpdate_eq after_setup_fields
    by (cases "or_default (o_elementResize options) True") (auto simp: poll_start_def)
  have vp: "prevRefRect (autoUpdate env (VirtualElement c) floatEl cb options) = Some (env_rect env)"
    using assms(1) by (simp add: autoUpdate_eq after_setup_fields)
  have el: "\<exists>tr. trace (autoUpdate env (Element n) floatEl cb options) =
                 tr @ [NewIntersectionObserver (env_io_count env),
                       IOObserve (env_io_count env) n, Update] \<and>
               Update \<notin> set tr \<and> GetBoundingClientRect \<notin> set tr"
    using assms(1) unfolding autoUpdate_eq after_setup_fields
    by (cases "or_default (o_elementResize options) True") (auto simp: poll_start_def)
  have ep: "prevRefRect (autoUpdate env (Element n) floatEl cb options) = None"
    using assms(1) by (simp add: autoUpdate_eq after_setup_fields)
  have er: "reference (autoUpdate env (Element n) floatEl cb options) = Element n"
    by (simp add: autoUpdate_eq after_setup_fields)
  obtain s where s: "run cb es0 (autoUpdate env (Element n) floatEl cb options) = Inr s"
    using run_total by blast
  from run_keeps_unsampled [OF er ep assms(2) s] have unset: "prevRefRect s = None" by simp
  have count_io: "updates (io_finish e t) = updates t" for t
    by (cases "intersectionObserver t") (simp_all add: updates_def io_finish_fields)
  from unset have first:
    "io_callback cb (e # es) s = Inr (io_finish e s) \<and>
     updates (io_finish e s) = updates s \<and>
     prevRefRect (io_finish e s) = Some (boundingClientRect e)"
    by (simp add: io_callback_Cons differs_def count_io io_finish_fields)
  from s unset first have
    "\<exists>s s'. run cb es0 (autoUpdate env (Element n) floatEl cb options) = Inr s \<and>
            prevRefRect s = None \<and>
            io_callback cb (e # es) s = Inr s' \<and>
            updates s' = updates s \<and>
            prevRefRect s' = Some (boundingClientRect e)"
    by blast
  with v vp el ep show ?thesis by blast
qed

theorem poller_started_before_initial_update_witness:
  "or_default (o_animationFrame polling_options) False \<and>
   (\<exists>tr. trace (autoUpdate demo_env (VirtualElement None) 2 plain_update polling_options) =
            tr @ [GetBoundingClientRect, RequestAnimationFrame 1, Update] \<and>
          Update \<notin> set tr) \<and>
   (\<exists>tr. trace (autoUpdate demo_env (Element 1) 2 plain_update polling_options) =
            tr @ [NewIntersectionObserver 0, IOObserve 0 1, Update] \<and>
          Update \<notin> set tr \<and> GetBoundingClientRect \<notin> set tr) \<and>
   (\<exists>s s'. run plain_update [ResizeEvent 100, ResizeObservation [2]]
              (autoUpdate demo_env (Element 1) 2 plain_update polling_options) = Inr s \<and>
           prevRefRect s = None \<and>
           io_callback plain_update [demo_entry 5] s = Inr s' \<and>
           updates s' = updates s \<and>
           prevRefRect s' = Some (demo_rect 5))"
proof -
  have h: "or_default (o_animationFrame polling_options) False"
    by (simp add: polling_options_def)
  have n: "\<forall>ev \<in> set [ResizeEvent 100, ResizeObservation [2]]. \<not> delivers_sample ev"
    by simp
  from poller_started_before_initial_update
         [OF h n, of demo_env None 2 plain_update 1 "demo_entry 5" "[]"] h
  show ?thesis by (simp add: demo_env_def demo_entry_def)
qed

text \<open>
  C7. The ResizeObserver's callback has one flag for all observed nodes. After
  setup, let the observer fire any number of times, each time for any non-empty
  set of nodes it observes at that moment: the first firing calls no \<^verbatim>\<open>update\<close>
  and every later one calls it once, so that after \<open>n\<close> firings \<^verbatim>\<open>update\<close> has
  been called \<open>max 1 n\<close> times, the call of setup included. With a callback
  that never calls the returned function the observed nodes stay those of setup
  (lemma \<open>deliverable_without_disposal\<close>).
\<close>

theorem watcher_drops_first_firing_only:
  assumes "deliverable cb firings (autoUpdate env refEl floatEl cb options)"
  shows "\<exists>s. run cb (map ResizeObservation firings) (autoUpdate env refEl floatEl cb options) =
               Inr s \<and>
             updates s = max 1 (length firings)"
proof -
  from firings_count [OF assms] obtain s where
    r: "run cb (map ResizeObservation firings) (autoUpdate env refEl floatEl cb options) = Inr s" and
    u: "updates s = updates (autoUpdate env refEl floatEl cb options) +
          (if initialUpdate (autoUpdate env refEl floatEl cb options)
           then length firings - 1 else length firings)"
    by blast
  from u have "updates s = max 1 (length firings)"
    by (auto simp: autoUpdate_eq after_setup_updates after_setup_flag max_def)
  with r show ?thesis by blast
qed

theorem watcher_drops_first_firing_only_witness:
  "ro_targets (autoUpdate demo_env (Element 1) 2 plain_update default_options) = [1, 2] \<and>
   deliverable plain_update [[1, 2], [2], [1]]
     (autoUpdate demo_env (Element 1) 2 plain_update default_options) \<and>
   (\<exists>s. run plain_update (map ResizeObservation [[1, 2], [2], [1]])
            (autoUpdate demo_env (Element 1) 2 plain_update default_options) = Inr s \<and>
        updates s = 3)"
proof -
  have t: "ro_targets (autoUpdate demo_env (Element 1) 2 plain_update default_options) = [1, 2]"
    by (simp add: autoUpdate_eq after_setup_fields default_options_def watch_nodes_def)
  have keep: "ro_targets (ro_callback plain_update s) = ro_targets s" for s
    by (simp add: ro_callback_eq update_plain emit_fields)
  from t have h: "deliverable plain_update [[1, 2], [2], [1]]
      (autoUpdate demo_env (Element 1) 2 plain_update default_options)"
    by (simp add: keep)
  from watcher_drops_first_firing_only [OF h] obtain s where
    r: "run plain_update (map ResizeObservation [[1, 2], [2], [1]])
          (autoUpdate demo_env (Element 1) 2 plain_update default_options) = Inr s" and
    u: "updates s = max 1 (length [[1, 2], [2], [1::nat]])"
    by blast
  from u have "updates s = 3" by simp
  with r t h show ?thesis by blast
qed

text \<open>
  C8. For a virtual reference without \<^verbatim>\<open>contextElement\<close> and no options given,
  the ancestors are those of the floating element, \<^verbatim>\<open>getOverflowAncestors\<close> is
  called for the floating element only, listeners are added on its ancestors only
  and the ResizeObserver is handed the floating element only; no later event
  changes that.
\<close>

theorem virtual_reference_without_context:
  "\<exists>s. run cb es (autoUpdate env (VirtualElement None) floatEl cb default_options) = Inr s \<and>
       ancestors s = env_overflowAncestors env floatEl \<and>
       overflow_queries (trace s) = [floatEl] \<and>
       watched (trace s) = [floatEl] \<and>
       listeners_added (trace s) =
         concat (map (\<lambda>a. [(a, Scroll), (a, Resize)]) (env_overflowAncestors env floatEl))"
proof -
  obtain s where
    s: "run cb es (autoUpdate env (VirtualElement None) floatEl cb default_options) = Inr s"
    using run_total by blast
  have start:
    "ancestors (autoUpdate env (VirtualElement None) floatEl cb default_options) =
       env_overflowAncestors env floatEl \<and>
     overflow_queries (trace (autoUpdate env (VirtualElement None) floatEl cb default_options)) =
       [floatEl] \<and>
     watched (trace (autoUpdate env (VirtualElement None) floatEl cb default_options)) =
       [floatEl] \<and>
     listeners_added (trace (autoUpdate env (VirtualElement None) floatEl cb default_options)) =
       concat (map (\<lambda>a. [(a, Scroll), (a, Resize)]) (env_overflowAncestors env floatEl))"
    unfolding autoUpdate_eq after_setup_fields
    by (simp add: default_options_def added_attach_trace watch_nodes_def discovery_nodes_def)
  from run_keeps_setup_calls [OF s] start s show ?thesis by simp
qed

text \<open>
  C9. The returned function never throws: it returns a state in every state,
  also in one where no observer and no frame request was ever created, and any
  number of calls in a row all return.
\<close>

theorem disposer_never_throws:
  "(\<exists>d. dispose s = Inr d) \<and>
   (\<exists>d. dispose (s\<lparr>resizeObserver := None, intersectionObserver := None, frameId := None\<rparr>) = Inr d) \<and>
   (\<exists>d. run cb (replicate n Dispose) s = Inr d)"
  using dispose_total run_total by blast

text \<open>
  C10. When the ancestor-scroll flag, after frame polling has forced it off, and
  the ancestor-resize flag are both false, \<^verbatim>\<open>getOverflowAncestors\<close> is never
  called, the ancestor list is empty, and no listener is added or removed, at
  setup, at disposal or at any other time.
\<close>

theorem no_ancestor_work_when_flags_off:
  assumes "\<not> (or_default (o_ancestorScroll options) True \<and>
              \<not> or_default (o_animationFrame options) False)"
    and "\<not> or_default (o_ancestorResize options) True"
  shows "\<exists>s. run cb es (autoUpdate env refEl floatEl cb options) = Inr s \<and>
             ancestors s = [] \<and> listeners s = [] \<and>
             overflow_queries (trace s) = [] \<and>
             listeners_added (trace s) = [] \<and>
             listeners_removed (trace s) = []"
proof -
  obtain s where s: "run cb es (autoUpdate env refEl floatEl cb options) = Inr s"
    using run_total by blast
  from assms(2) have rs: "or_default (o_ancestorResize options) True = False" by simp
  from assms(1) have sc:
    "(or_default (o_ancestorScroll options) True \<and>
      \<not> or_default (o_animationFrame options) False) = False" by simp
  have start:
    "ancestors (autoUpdate env refEl floatEl cb options) = [] \<and>
     listeners (autoUpdate env refEl floatEl cb options) = [] \<and>
     overflow_queries (trace (autoUpdate env refEl floatEl cb options)) = [] \<and>
     listeners_added (trace (autoUpdate env refEl floatEl cb options)) = [] \<and>
     listeners_removed (trace (autoUpdate env refEl floatEl cb options)) = []"
    unfolding autoUpdate_eq sc rs after_setup_fields
    by (cases refEl) (simp_all add: discovery_nodes_def poll_start_def)
  then have a: "ancestors (autoUpdate env refEl floatEl cb options) = []" by simp
  from run_keeps_setup_calls [OF s] run_without_ancestors [OF a s] start s
  show ?thesis by simp
qed

theorem no_ancestor_work_when_flags_off_witness:
  "\<not> (or_default (o_ancestorScroll bare_options) True \<and>
       \<not> or_default (o_animationFrame bare_options) False) \<and>
   \<not> or_default (o_ancestorResize bare_options) True \<and>
   (\<exists>s. run plain_update [ScrollEvent 100, Dispose]
          (autoUpdate demo_env (Element 1) 2 plain_update bare_options) = Inr s \<and>
        ancestors s = [] \<and> listeners s = [] \<and>
        overflow_queries (trace s) = [] \<and>
        listeners_added (trace s) = [] \<and>
        listeners_removed (trace s) = [])"
proof -
  have h1: "\<not> (or_default (o_ancestorScroll bare_options) True \<and>
       \<not> or_default (o_animationFrame bare_options) False)"
    by (simp add: bare_options_def)
  have h2: "\<not> or_default (o_ancestorResize bare_options) True"
    by (simp add: bare_options_def)
  from no_ancestor_work_when_flags_off
         [OF h1 h2, of plain_update "[ScrollEvent 100, Dispose]" demo_env "Element 1" 2] h1 h2
  show ?thesis by blast
qed

end
